theory Spec2Isabelle
  imports Complex_Main "HOL-Library.Multiset"
begin

section \<open>Partial singular value decomposition: \<open>scipy/sparse/linalg/eigen/_svds.py\<close>\<close>

text \<open>
  A shallow embedding of \<open>svds\<close> and of its helpers \<open>_augmented_orthonormal_cols\<close>,
  \<open>_augmented_orthonormal_rows\<close> and \<open>_herm\<close>.

  Conventions of the embedding.
  \<^item> Array entries are exact complex numbers; overflow, NaN and infinities are not
    modelled. The floating-point operations that decide which eigenvalues are kept and
    what the singular values are, the two products of lines 208 and 209 and the square
    root of line 216, are rounded by NumPy: they are the parameters \<open>fl_mul\<close> and
    \<open>fl_sqrt\<close> of the embedding. The products with the operator, the projections and
    the quotients that make the singular vectors are exact here; a theorem about the
    entries of the vectors is a theorem in exact arithmetic and says so.
  \<^item> Where NumPy divides by zero it does not raise (the quotient is NaN or inf); the
    embedding then has the quotient of HOL, \<open>x / 0 = 0\<close>. Every theorem that depends on
    such a quotient says so.
  \<^item> A two-dimensional array is stored by columns, with its shape and its dtype.
  \<^item> Every Python exception is a value \<open>Inl e\<close>; the operator primitives and the two
    eigensolvers are callables that may raise.
  \<^item> The eigensolvers \<open>eigsh\<close> and \<open>lobpcg\<close>, the global generator behind
    \<open>np.random.randn\<close>, \<open>np.random.RandomState(seed).randn\<close> and the order in which
    \<open>np.argsort\<close> leaves equal keys are collaborators of the module: they are parameters
    of the embedding.
  \<^item> The state of the random sources of the process is threaded through explicitly. It
    is read and advanced by \<open>np.random.randn\<close> and by \<open>eigsh\<close>, which starts from a
    random vector of its own when no \<open>v0\<close> is given (docstring, lines 78 to 82).
\<close>

subsection \<open>Errors\<close>

datatype error =
    ValueError string
  | AttributeError string
  | KeyError string
  | IndexError string
  | NotImplementedError
  | ExternalError string

definition bindE :: "error + 'a \<Rightarrow> ('a \<Rightarrow> error + 'b) \<Rightarrow> error + 'b" where
  "bindE r f = (case r of Inl e \<Rightarrow> Inl e | Inr x \<Rightarrow> f x)"

subsection \<open>Element types\<close>

text \<open>The inexact NumPy dtypes, with their one-character codes (\<open>dtype.char\<close>).\<close>

datatype np_dtype =
  Float16 | Float32 | Float64 | LongDouble | Complex64 | Complex128 | CLongDouble

fun dtype_char :: "np_dtype \<Rightarrow> string" where
  "dtype_char Float16 = ''e''"
| "dtype_char Float32 = ''f''"
| "dtype_char Float64 = ''d''"
| "dtype_char LongDouble = ''g''"
| "dtype_char Complex64 = ''F''"
| "dtype_char Complex128 = ''D''"
| "dtype_char CLongDouble = ''G''"

fun iscomplex_dtype :: "np_dtype \<Rightarrow> bool" where
  "iscomplex_dtype Complex64 = True"
| "iscomplex_dtype Complex128 = True"
| "iscomplex_dtype CLongDouble = True"
| "iscomplex_dtype _ = False"

fun precision_rank :: "np_dtype \<Rightarrow> nat" where
  "precision_rank Float16 = 0"
| "precision_rank Float32 = 1"
| "precision_rank Float64 = 2"
| "precision_rank LongDouble = 3"
| "precision_rank Complex64 = 1"
| "precision_rank Complex128 = 2"
| "precision_rank CLongDouble = 3"

definition dtype_of_rank :: "bool \<Rightarrow> nat \<Rightarrow> np_dtype" where
  "dtype_of_rank cplx r =
     (if cplx then (if r \<le> 1 then Complex64 else if r = 2 then Complex128 else CLongDouble)
      else (if r = 0 then Float16 else if r = 1 then Float32
            else if r = 2 then Float64 else LongDouble))"

definition result_type :: "np_dtype \<Rightarrow> np_dtype \<Rightarrow> np_dtype" where
  \<comment> \<open>NumPy's promotion of two inexact array dtypes.\<close>
  "result_type a b =
     dtype_of_rank (iscomplex_dtype a \<or> iscomplex_dtype b)
                   (max (precision_rank a) (precision_rank b))"

definition lower_char :: "char \<Rightarrow> char" where
  \<comment> \<open>an ASCII capital (codes 65 to 90) gets bit 5 set, which adds 32\<close>
  "lower_char c =
     (case c of Char b0 b1 b2 b3 b4 b5 b6 b7 \<Rightarrow>
        if 65 \<le> (of_char c :: nat) \<and> (of_char c :: nat) \<le> 90
        then Char b0 b1 b2 b3 b4 True b6 b7 else c)"

definition lower :: "string \<Rightarrow> string" where
  \<comment> \<open>\<open>str.lower()\<close> on ASCII text\<close>
  "lower s = map lower_char s"

subsection \<open>Arrays\<close>

type_synonym vec = "complex list"

record vector =
  vdtype :: np_dtype
  elems :: vec

record matrix =
  nrows :: nat
  ncols :: nat
  dtype :: np_dtype
  cols :: "vec list"

definition wf_matrix :: "matrix \<Rightarrow> bool" where
  \<comment> \<open>the stored columns agree with the shape\<close>
  "wf_matrix x \<longleftrightarrow> length (cols x) = ncols x \<and> list_all (\<lambda>c. length c = nrows x) (cols x)"

definition iscomplexobj :: "matrix \<Rightarrow> bool" where
  "iscomplexobj x = iscomplex_dtype (dtype x)"

definition np_zeros :: "nat \<Rightarrow> nat \<Rightarrow> matrix" where
  \<comment> \<open>\<open>np.zeros([r, c])\<close>\<close>
  "np_zeros r c = \<lparr>nrows = r, ncols = c, dtype = Float64, cols = replicate c (replicate r 0)\<rparr>"

definition np_reshape_col :: "vector \<Rightarrow> matrix" where
  \<comment> \<open>\<open>np.reshape(v0, (-1, 1))\<close>\<close>
  "np_reshape_col v = \<lparr>nrows = length (elems v), ncols = 1, dtype = vdtype v, cols = [elems v]\<rparr>"

definition transpose_m :: "matrix \<Rightarrow> matrix" where
  \<comment> \<open>\<open>x.T\<close>\<close>
  "transpose_m x =
     \<lparr>nrows = ncols x, ncols = nrows x, dtype = dtype x,
      cols = map (\<lambda>i. map (\<lambda>c. c ! i) (cols x)) [0..<nrows x]\<rparr>"

definition conj_m :: "matrix \<Rightarrow> matrix" where
  \<comment> \<open>\<open>x.conj()\<close>\<close>
  "conj_m x = x\<lparr>cols := map (map cnj) (cols x)\<rparr>"

definition herm :: "matrix \<Rightarrow> matrix" where
  \<comment> \<open>\<open>_herm(x)\<close>: \<open>x.T.conj()\<close>\<close>
  "herm x = conj_m (transpose_m x)"

definition np_dot :: "vec \<Rightarrow> vec \<Rightarrow> complex" where
  \<comment> \<open>\<open>np.dot(a, b)\<close> of two one-dimensional arrays of one length (no conjugation)\<close>
  "np_dot a b = sum_list (map2 (*) a b)"

definition vconj :: "vec \<Rightarrow> vec" where
  "vconj v = map cnj v"

definition vsub :: "vec \<Rightarrow> vec \<Rightarrow> vec" where
  "vsub a b = map2 (-) a b"

definition vadd :: "vec \<Rightarrow> vec \<Rightarrow> vec" where
  "vadd a b = map2 (+) a b"

definition vscale :: "complex \<Rightarrow> vec \<Rightarrow> vec" where
  "vscale c a = map ((*) c) a"

definition vdiv :: "vec \<Rightarrow> complex \<Rightarrow> vec" where
  "vdiv a c = map (\<lambda>x. x / c) a"

fun lincomb :: "nat \<Rightarrow> vec list \<Rightarrow> vec \<Rightarrow> vec" where
  \<comment> \<open>the product of the matrix with columns \<open>cs\<close> (of length \<open>r\<close>) and the vector \<open>x\<close>\<close>
  "lincomb r (c # cs) (x # xs) = vadd (vscale x c) (lincomb r cs xs)"
| "lincomb r _ _ = replicate r 0"

definition dot_vec :: "matrix \<Rightarrow> vector \<Rightarrow> error + vector" where
  \<comment> \<open>\<open>A.dot(x)\<close> for a matrix \<open>A\<close> and a one-dimensional \<open>x\<close>\<close>
  "dot_vec A x =
     (if length (elems x) \<noteq> ncols A then Inl (ValueError ''shapes not aligned'')
      else Inr \<lparr>vdtype = result_type (dtype A) (vdtype x),
                elems = lincomb (nrows A) (cols A) (elems x)\<rparr>)"

definition dot_mat :: "matrix \<Rightarrow> matrix \<Rightarrow> error + matrix" where
  \<comment> \<open>\<open>A.dot(x)\<close> for a matrix \<open>A\<close> and a two-dimensional \<open>x\<close>\<close>
  "dot_mat A x =
     (if nrows x \<noteq> ncols A then Inl (ValueError ''shapes not aligned'')
      else Inr \<lparr>nrows = nrows A, ncols = ncols x, dtype = result_type (dtype A) (dtype x),
                cols = map (lincomb (nrows A) (cols A)) (cols x)\<rparr>)"

definition row :: "matrix \<Rightarrow> nat \<Rightarrow> vec" where
  \<comment> \<open>\<open>x[j]\<close>, the row \<open>j\<close> of a two-dimensional array\<close>
  "row x j = map (\<lambda>c. c ! j) (cols x)"

definition mask_select :: "'a list \<Rightarrow> bool list \<Rightarrow> 'a list" where
  \<comment> \<open>boolean-mask indexing \<open>xs[mask]\<close>\<close>
  "mask_select xs msk = map fst (filter snd (zip xs msk))"

definition select_cols :: "matrix \<Rightarrow> bool list \<Rightarrow> error + matrix" where
  \<comment> \<open>\<open>x[:, mask]\<close>\<close>
  "select_cols x msk =
     (if length msk \<noteq> ncols x then Inl (IndexError ''boolean index did not match'')
      else Inr (x\<lparr>ncols := length (filter id msk), cols := mask_select (cols x) msk\<rparr>))"

definition div_cols :: "matrix \<Rightarrow> real list \<Rightarrow> error + matrix" where
  \<comment> \<open>\<open>x / s\<close>: column \<open>j\<close> of \<open>x\<close> divided by \<open>s[j]\<close>. The dtypes of one-dimensional real
      arrays are not tracked: the quotient keeps the dtype of \<open>x\<close>. The products of the
      primitives have as many columns as \<open>s\<close> has entries; NumPy's broadcasting of a single
      column or a single divisor is not modelled and is an error here.\<close>
  "div_cols x s =
     (if length s \<noteq> ncols x then Inl (ValueError ''operands could not be broadcast together'')
      else Inr (x\<lparr>cols := map2 (\<lambda>c d. vdiv c (complex_of_real d)) (cols x) s\<rparr>))"

definition take_cols :: "matrix \<Rightarrow> nat list \<Rightarrow> error + matrix" where
  \<comment> \<open>\<open>x[:, idx]\<close> for a list of non-negative indices\<close>
  "take_cols x idx =
     (if list_all (\<lambda>i. i < ncols x) idx
      then Inr (x\<lparr>ncols := length idx, cols := map (\<lambda>i. cols x ! i) idx\<rparr>)
      else Inl (IndexError ''index out of bounds''))"

definition take_rows :: "matrix \<Rightarrow> nat list \<Rightarrow> error + matrix" where
  \<comment> \<open>\<open>x[idx]\<close> for a list of non-negative indices\<close>
  "take_rows x idx =
     (if list_all (\<lambda>i. i < nrows x) idx
      then Inr (x\<lparr>nrows := length idx, cols := map (\<lambda>c. map (\<lambda>i. c ! i) idx) (cols x)\<rparr>)
      else Inl (IndexError ''index out of bounds''))"

definition np_max :: "real list \<Rightarrow> error + real" where
  \<comment> \<open>\<open>np.max(xs)\<close>\<close>
  "np_max xs = (if xs = [] then Inl (ValueError ''zero-size array'') else Inr (Max (set xs)))"

definition argsort :: "(real list \<Rightarrow> nat \<Rightarrow> nat) \<Rightarrow> real list \<Rightarrow> nat list" where
  \<comment> \<open>\<open>np.argsort(s)\<close>: a permutation of the indices that sorts \<open>s\<close>. NumPy's default sort
      is not stable: the order in which it leaves equal keys is the parameter \<open>rank\<close>, the
      indices of equal keys come in the order of \<open>rank s\<close> (and in index order where that
      is equal too). Every permutation that sorts \<open>s\<close> is the result for some \<open>rank\<close>
      (lemma \<open>argsort_complete\<close>).\<close>
  "argsort rank s = sort_key (\<lambda>i. s ! i) (sort_key (rank s) [0..<length s])"

definition np_sort :: "real list \<Rightarrow> real list" where
  "np_sort s = sort s"

subsection \<open>The basis augmentation (lines 15 to 40)\<close>

text \<open>
  \<open>np.random.randn(n)\<close> is the parameter \<open>randn\<close>: from a state of the global generator
  it gives \<open>n\<close> reals and the next state.
\<close>

type_synonym 'g sampler = "nat \<Rightarrow> 'g \<Rightarrow> real list \<times> 'g"

definition sample_vector :: "'g sampler \<Rightarrow> bool \<Rightarrow> nat \<Rightarrow> 'g \<Rightarrow> vec \<times> 'g" where
  \<comment> \<open>lines 24 to 26: \<open>v = randn(n)\<close>, and \<open>v = v + 1j*randn(n)\<close> for a complex \<open>x\<close>\<close>
  "sample_vector randn cplx n g =
     (let (re, g1) = randn n g in
      if cplx then (let (im, g2) = randn n g1 in (map2 Complex re im, g2))
      else (map complex_of_real re, g1))"

fun project_out :: "vec \<Rightarrow> vec list \<Rightarrow> vec" where
  \<comment> \<open>lines 28 to 30, the loop over the columns \<open>u\<close> established so far\<close>
  "project_out v [] = v"
| "project_out v (u # us) =
     project_out (vsub v (vscale (np_dot v (vconj u) / np_dot u (vconj u)) u)) us"

definition normalize :: "vec \<Rightarrow> vec" where
  \<comment> \<open>line 32: \<open>v /= np.sqrt(np.dot(v, v.conj()))\<close>\<close>
  "normalize v = vdiv v (csqrt (np_dot v (vconj v)))"

fun augment_loop :: "'g sampler \<Rightarrow> bool \<Rightarrow> nat \<Rightarrow> nat \<Rightarrow> vec list \<Rightarrow> 'g \<Rightarrow> vec list \<times> 'g" where
  \<comment> \<open>lines 22 to 34, the loop over \<open>i\<close>; \<open>ys\<close> are the columns \<open>y[:, :m+i]\<close>\<close>
  "augment_loop randn cplx n 0 ys g = (ys, g)"
| "augment_loop randn cplx n (Suc k) ys g =
     (let (v, g1) = sample_vector randn cplx n g;
          v2 = normalize (project_out v ys)
      in augment_loop randn cplx n k (ys @ [v2]) g1)"

definition augmented_orthonormal_cols :: "'g sampler \<Rightarrow> matrix \<Rightarrow> nat \<Rightarrow> 'g \<Rightarrow> matrix \<times> 'g" where
  "augmented_orthonormal_cols randn x k g =
     (let n = nrows x; m = ncols x;
          (ys, g1) = augment_loop randn (iscomplexobj x) n k (cols x) g
      in (\<lparr>nrows = n, ncols = m + k, dtype = dtype x, cols = ys\<rparr>, g1))"

definition augmented_orthonormal_rows :: "'g sampler \<Rightarrow> matrix \<Rightarrow> nat \<Rightarrow> 'g \<Rightarrow> matrix \<times> 'g" where
  "augmented_orthonormal_rows randn x k g =
     (let (y, g1) = augmented_orthonormal_cols randn (transpose_m x) k g
      in (transpose_m y, g1))"

text \<open>
  What the augmentation is to establish. \<open>hdot v u\<close> is \<open>np.dot(v, u.conj())\<close>, the
  Hermitian product of line 30; the columns \<open>ys\<close> are orthonormal when these products are
  the entries of the identity matrix. \<open>no_zero_residual\<close> follows the loop of lines 22 to
  34 and says that every draw has the length \<open>n\<close> and that no vector normalised at line 32
  is the zero vector (where NumPy would give a column of NaN).
\<close>

definition hdot :: "vec \<Rightarrow> vec \<Rightarrow> complex" where
  "hdot v u = np_dot v (vconj u)"

definition orthonormal :: "vec list \<Rightarrow> bool" where
  "orthonormal ys =
     list_all (\<lambda>i. list_all (\<lambda>j. hdot (ys ! i) (ys ! j) = (if i = j then 1 else 0))
                             [0..<length ys]) [0..<length ys]"


subsection \<open>Operators\<close>

text \<open>
  An attribute of a Python object is there or not; the \<open>dtype\<close> of a \<open>LinearOperator\<close>
  that is there may still be \<open>None\<close>.
\<close>

datatype 'a attr = Missing | Present 'a

record linear_operator =
  shape :: "nat \<times> nat"
  op_dtype :: "np_dtype option attr"
  matvec :: "vector \<Rightarrow> error + vector"
  matmat :: "matrix \<Rightarrow> error + matrix"
  rmatvec :: "vector \<Rightarrow> error + vector"
  rmatmat :: "matrix \<Rightarrow> error + matrix"

text \<open>
  The argument \<open>A\<close> after line 142: a \<open>LinearOperator\<close>, or an array (a sparse matrix, or
  the result of \<open>np.asarray\<close>).
\<close>

datatype operand = LinearOperator linear_operator | Array matrix

fun shape_of :: "operand \<Rightarrow> nat \<times> nat" where
  "shape_of (LinearOperator L) = shape L"
| "shape_of (Array M) = (nrows M, ncols M)"

fun dtype_of :: "operand \<Rightarrow> error + np_dtype option" where
  \<comment> \<open>the expression \<open>A.dtype\<close>\<close>
  "dtype_of (LinearOperator L) =
     (case op_dtype L of Missing \<Rightarrow> Inl (AttributeError ''dtype'') | Present d \<Rightarrow> Inr d)"
| "dtype_of (Array M) = Inr (Some (dtype M))"

definition getattr_dtype :: "linear_operator \<Rightarrow> np_dtype option" where
  \<comment> \<open>\<open>getattr(A, 'dtype', None)\<close>\<close>
  "getattr_dtype L = (case op_dtype L of Missing \<Rightarrow> None | Present d \<Rightarrow> d)"

record primitives =
  X_dot :: "vector \<Rightarrow> error + vector"
  X_matmat :: "matrix \<Rightarrow> error + matrix"
  XH_dot :: "vector \<Rightarrow> error + vector"
  XH_mat :: "matrix \<Rightarrow> error + matrix"

definition operator_dot :: "linear_operator \<Rightarrow> matrix \<Rightarrow> error + matrix" where
  \<comment> \<open>Modelled from the spec: the method \<open>dot\<close> of \<open>LinearOperator\<close>
      (\<open>scipy.sparse.linalg.interface\<close>) is not part of the module. The spec has the probe
      of line 163 as a matrix-vector product: \<open>dot\<close> of an array with one column is
      \<open>matvec\<close> of that column, \<open>dot\<close> of any other two-dimensional array is \<open>matmat\<close>.\<close>
  "operator_dot L x =
     (case cols x of
        [c] \<Rightarrow> bindE (matvec L \<lparr>vdtype = dtype x, elems = c\<rparr>) (\<lambda>y. Inr (np_reshape_col y))
      | _ \<Rightarrow> matmat L x)"

definition probe_dtype :: "linear_operator \<Rightarrow> nat \<Rightarrow> error + np_dtype" where
  \<comment> \<open>lines 161 to 163\<close>
  "probe_dtype L m =
     (case getattr_dtype L of
        Some d \<Rightarrow> Inr d
      | None \<Rightarrow> bindE (operator_dot L (np_zeros m 1)) (\<lambda>r. Inr (dtype r)))"

fun select_primitives :: "operand \<Rightarrow> nat \<Rightarrow> nat \<Rightarrow> error + primitives \<times> np_dtype option" where
  \<comment> \<open>lines 149 to 171. The second component is the local variable \<open>dtype\<close>, \<open>None\<close>
      where no branch assigns it.\<close>
  "select_primitives (LinearOperator L) n m =
     (if n > m
      then Inr (\<lparr>X_dot = matvec L, X_matmat = matmat L,
                 XH_dot = rmatvec L, XH_mat = rmatmat L\<rparr>, None)
      else bindE (probe_dtype L m)
             (\<lambda>d. Inr (\<lparr>X_dot = rmatvec L, X_matmat = rmatmat L,
                         XH_dot = matvec L, XH_mat = matmat L\<rparr>, Some d)))"
| "select_primitives (Array M) n m =
     (if n > m
      then Inr (\<lparr>X_dot = dot_vec M, X_matmat = dot_mat M,
                 XH_dot = dot_vec (herm M), XH_mat = dot_mat (herm M)\<rparr>, None)
      else Inr (\<lparr>X_dot = dot_vec (herm M), X_matmat = dot_mat (herm M),
                 XH_dot = dot_vec M, XH_mat = dot_mat M\<rparr>, None))"

definition matvec_XH_X :: "primitives \<Rightarrow> vector \<Rightarrow> error + vector" where
  "matvec_XH_X p x = bindE (X_dot p x) (XH_dot p)"

definition matmat_XH_X :: "primitives \<Rightarrow> matrix \<Rightarrow> error + matrix" where
  "matmat_XH_X p x = bindE (X_matmat p x) (XH_mat p)"

definition gram_operator :: "primitives \<Rightarrow> np_dtype option \<Rightarrow> nat \<times> nat \<Rightarrow> linear_operator" where
  \<comment> \<open>Modelled from the spec: the constructor \<open>LinearOperator(matvec=, dtype=, matmat=, shape=)\<close>
      of \<open>scipy.sparse.linalg.interface\<close> is not part of the module. The operator it
      builds has the callables, the dtype and the shape it is given, and no adjoint.\<close>
  "gram_operator p d sh =
     \<lparr>shape = (min (fst sh) (snd sh), min (fst sh) (snd sh)),
      op_dtype = Present d,
      matvec = matvec_XH_X p,
      matmat = matmat_XH_X p,
      rmatvec = (\<lambda>x. Inl NotImplementedError),
      rmatmat = (\<lambda>x. Inl NotImplementedError)\<rparr>"

subsection \<open>The eigensolvers and the random sources\<close>

record eigenpairs =
  eigvals :: "complex list"
  eigvec :: matrix

record 'g externals =
  eigsh :: "linear_operator \<Rightarrow> int \<Rightarrow> real \<Rightarrow> int option \<Rightarrow> int option \<Rightarrow> string
            \<Rightarrow> vector option \<Rightarrow> 'g \<Rightarrow> (error + eigenpairs) \<times> 'g"
  lobpcg :: "linear_operator \<Rightarrow> matrix \<Rightarrow> real \<Rightarrow> int option \<Rightarrow> bool \<Rightarrow> error + eigenpairs"
  randn :: "'g sampler"
  RandomState_randn :: "nat \<Rightarrow> nat \<Rightarrow> nat \<Rightarrow> matrix"
  fl_mul :: "real \<Rightarrow> real \<Rightarrow> real"
  fl_sqrt :: "real \<Rightarrow> real"
  tie_rank :: "real list \<Rightarrow> nat \<Rightarrow> nat"

text \<open>
  \<open>eigsh ext XH_X k tol maxiter ncv which v0 g\<close> and \<open>lobpcg ext XH_X X tol maxiter largest\<close>
  are the two calls of lines 192 and 196. \<open>eigsh\<close> reads the state \<open>g\<close> of the random
  sources and returns the state it leaves: with \<open>v0 = None\<close> it starts from a random
  vector. \<open>lobpcg\<close> starts from the block it is given. \<open>RandomState_randn ext seed r c\<close> is
  \<open>np.random.RandomState(seed).randn(r, c)\<close>, a generator of its own that is made from
  the seed at every call. \<open>fl_mul ext a b\<close> and \<open>fl_sqrt ext a\<close> are the product \<open>a * b\<close>
  and \<open>np.sqrt(a)\<close> as NumPy rounds them, and \<open>tie_rank ext\<close> is the order in which
  \<open>np.argsort\<close> leaves equal keys.
\<close>

definition initial_block :: "'g externals \<Rightarrow> nat \<Rightarrow> int \<Rightarrow> vector option \<Rightarrow> matrix" where
  \<comment> \<open>lines 187 to 190\<close>
  "initial_block ext mn k v0 =
     (case v0 of
        Some v \<Rightarrow> if k = 1 then np_reshape_col v else RandomState_randn ext 52 mn (nat k)
      | None \<Rightarrow> RandomState_randn ext 52 mn (nat k))"

definition solve :: "'g externals \<Rightarrow> linear_operator \<Rightarrow> nat \<Rightarrow> int \<Rightarrow> int option \<Rightarrow> real \<Rightarrow> string
                     \<Rightarrow> bool \<Rightarrow> vector option \<Rightarrow> int option \<Rightarrow> string option \<Rightarrow> 'g
                     \<Rightarrow> (error + eigenpairs) \<times> 'g" where
  \<comment> \<open>lines 185 to 200\<close>
  "solve ext XH_X mn k ncv tol which largest v0 maxiter solver g =
     (if solver = Some ''lobpcg''
      then (lobpcg ext XH_X (initial_block ext mn k v0) (tol ^ 2) maxiter largest, g)
      else if solver = Some ''arpack'' \<or> solver = None
      then eigsh ext XH_X k (tol ^ 2) maxiter ncv which v0 g
      else (Inl (ValueError ''solver must be either arpack, or lobpcg.''), g))"

subsection \<open>The degeneracy cutoff (lines 202 to 218)\<close>

definition factor :: "string \<rightharpoonup> real" where
  \<comment> \<open>line 207: \<open>{'f': 1E3, 'd': 1E6}\<close>\<close>
  "factor = map_of [(''f'', 1000), (''d'', 1000000)]"

definition finfo_eps :: "string \<rightharpoonup> real" where
  \<comment> \<open>\<open>np.finfo(t).eps\<close> for the IEEE types: half, single and double precision\<close>
  "finfo_eps = map_of [(''e'', 1 / 2 ^ 10), (''f'', 1 / 2 ^ 23), (''d'', 1 / 2 ^ 52)]"

definition clamp :: "complex list \<Rightarrow> real list" where
  \<comment> \<open>line 203: \<open>np.maximum(eigvals.real, 0)\<close>\<close>
  "clamp ev = map (\<lambda>z. max (Re z) 0) ev"

definition cond_of :: "'g externals \<Rightarrow> matrix \<Rightarrow> error + real" where
  \<comment> \<open>lines 206 to 208\<close>
  "cond_of ext ev_vec =
     (let t = lower (dtype_char (dtype ev_vec)) in
      case factor t of
        None \<Rightarrow> Inl (KeyError t)
      | Some f \<Rightarrow> (case finfo_eps t of
                     None \<Rightarrow> Inl (ValueError ''data type not inexact'')
                   | Some eps \<Rightarrow> Inr (fl_mul ext f eps)))"

record thresholded =
  cutoff :: real
  above_cutoff :: "bool list"
  nlarge :: nat
  slarge :: "real list"
  svals :: "real list"

definition threshold :: "'g externals \<Rightarrow> eigenpairs \<Rightarrow> error + thresholded" where
  \<comment> \<open>lines 203 to 218; \<open>svals\<close> is the array \<open>s\<close> of line 218. The comparison of line 213
      is between two floating-point numbers and is exact.\<close>
  "threshold ext r =
     (let ev = clamp (eigvals r) in
      bindE (cond_of ext (eigvec r)) (\<lambda>cond.
      bindE (np_max ev) (\<lambda>mx.
        let c = fl_mul ext cond mx;
            msk = map (\<lambda>x. x > c) ev;
            nl = length (filter id msk);
            sl = map (fl_sqrt ext) (mask_select ev msk)
        in Inr \<lparr>cutoff = c, above_cutoff = msk, nlarge = nl, slarge = sl,
                svals = sl @ drop nl (replicate (length ev) 0)\<rparr>)))"

subsection \<open>The singular vectors (lines 222 to 240)\<close>

text \<open>\<open>return_singular_vectors\<close> is a Python \<open>bool\<close> or a \<open>str\<close>.\<close>

datatype pyarg = PyBool bool | PyStr string

fun truthy :: "pyarg \<Rightarrow> bool" where
  "truthy (PyBool b) = b"
| "truthy (PyStr s) = (s \<noteq> [])"

definition rescale :: "(matrix \<Rightarrow> error + matrix) \<Rightarrow> matrix \<Rightarrow> real list \<Rightarrow> error + matrix" where
  \<comment> \<open>\<open>X_matmat(v) / slarge\<close>\<close>
  "rescale f v sl = bindE (f v) (\<lambda>w. div_cols w sl)"

definition large_vectors :: "primitives \<Rightarrow> nat \<Rightarrow> nat \<Rightarrow> pyarg \<Rightarrow> matrix \<Rightarrow> bool list \<Rightarrow> real list
                             \<Rightarrow> error + matrix option \<times> matrix option" where
  \<comment> \<open>lines 222 to 228: the pair \<open>(ularge, vhlarge)\<close>\<close>
  "large_vectors p n m rsv ev_vec msk sl =
     (if n > m then
        bindE (select_cols ev_vec msk) (\<lambda>vlarge.
        bindE (if rsv \<noteq> PyStr ''vh''
               then bindE (rescale (X_matmat p) vlarge sl) (\<lambda>q. Inr (Some q))
               else Inr None) (\<lambda>ularge.
        Inr (ularge, Some (herm vlarge))))
      else
        bindE (select_cols ev_vec msk) (\<lambda>ularge.
        bindE (if rsv \<noteq> PyStr ''u''
               then bindE (rescale (X_matmat p) ularge sl) (\<lambda>q. Inr (Some (herm q)))
               else Inr None) (\<lambda>vhlarge.
        Inr (Some ularge, vhlarge))))"

definition augment_sides :: "'g sampler \<Rightarrow> matrix option \<Rightarrow> matrix option \<Rightarrow> nat \<Rightarrow> 'g
                             \<Rightarrow> matrix option \<times> matrix option \<times> 'g" where
  \<comment> \<open>lines 230 and 231\<close>
  "augment_sides rnd ularge vhlarge nsmall g =
     (let (u, g1) = (case ularge of
                       None \<Rightarrow> (None, g)
                     | Some x \<Rightarrow> (let (y, g') = augmented_orthonormal_cols rnd x nsmall g
                                  in (Some y, g')));
          (vh, g2) = (case vhlarge of
                        None \<Rightarrow> (None, g1)
                      | Some x \<Rightarrow> (let (y, g') = augmented_orthonormal_rows rnd x nsmall g1
                                   in (Some y, g')))
      in (u, vh, g2))"

datatype svds_result =
    Values "real list"
  | Triplet "matrix option" "real list" "matrix option"

fun values_of :: "svds_result \<Rightarrow> real list" where
  \<comment> \<open>the singular values of a result\<close>
  "values_of (Values s) = s"
| "values_of (Triplet u s vh) = s"

definition sort_triplets :: "(real list \<Rightarrow> nat \<Rightarrow> nat) \<Rightarrow> matrix option \<Rightarrow> real list \<Rightarrow> matrix option
                             \<Rightarrow> error + svds_result" where
  \<comment> \<open>lines 233 to 240\<close>
  "sort_triplets rank u s vh =
     (let indexes_sorted = argsort rank s;
          s1 = map (\<lambda>i. s ! i) indexes_sorted
      in bindE (case u of None \<Rightarrow> Inr None
                | Some x \<Rightarrow> bindE (take_cols x indexes_sorted) (\<lambda>y. Inr (Some y))) (\<lambda>u1.
         bindE (case vh of None \<Rightarrow> Inr None
                | Some x \<Rightarrow> bindE (take_rows x indexes_sorted) (\<lambda>y. Inr (Some y))) (\<lambda>vh1.
         Inr (Triplet u1 s1 vh1))))"

subsection \<open>\<open>svds\<close> (lines 47 to 240)\<close>

definition check_which :: "string \<Rightarrow> error + bool" where
  \<comment> \<open>lines 134 to 139: the flag \<open>largest\<close>\<close>
  "check_which which =
     (if which = ''LM'' then Inr True
      else if which = ''SM'' then Inr False
      else Inl (ValueError ''which must be either LM or SM.''))"

definition finish :: "'g externals \<Rightarrow> primitives \<Rightarrow> nat \<Rightarrow> nat \<Rightarrow> int \<Rightarrow> pyarg \<Rightarrow> eigenpairs \<Rightarrow> 'g
                      \<Rightarrow> (error + svds_result) \<times> 'g" where
  \<comment> \<open>lines 202 to 240. The eigensolver is to return \<open>k\<close> eigenvalues, so that
      \<open>nsmall = k - nlarge\<close> is not negative; a negative count is not modelled.\<close>
  "finish ext p n m k return_singular_vectors r g =
     (case threshold ext r of
        Inl e \<Rightarrow> (Inl e, g)
      | Inr th \<Rightarrow>
          let nsmall = k - int (nlarge th) in
          if \<not> truthy return_singular_vectors then (Inr (Values (np_sort (svals th))), g)
          else (case large_vectors p n m return_singular_vectors (eigvec r)
                       (above_cutoff th) (slarge th) of
                  Inl e \<Rightarrow> (Inl e, g)
                | Inr (ularge, vhlarge) \<Rightarrow>
                    (let (u, vh, g1) = augment_sides (randn ext) ularge vhlarge (nat nsmall) g
                     in (sort_triplets (tie_rank ext) u (svals th) vh, g1))))"

definition prepare :: "operand \<Rightarrow> int \<Rightarrow> string
    \<Rightarrow> error + bool \<times> primitives \<times> nat \<times> nat \<times> linear_operator" where
  \<comment> \<open>lines 134 to 181: the checks, the primitives and the Gram operator \<open>XH_X\<close>. The
      result has the flag \<open>largest\<close>, the primitives, the shape \<open>(n, m)\<close> and \<open>XH_X\<close>.\<close>
  "prepare A k which =
     bindE (check_which which) (\<lambda>largest.
       let (n, m) = shape_of A in
       if k \<le> 0 \<or> k \<ge> int (min n m)
       then Inl (ValueError ''k must be between 1 and min(A.shape), k=%d'')
       else bindE (select_primitives A n m) (\<lambda>(p, dtype_local).
            bindE (dtype_of A) (\<lambda>d.
              Inr (largest, p, n, m, gram_operator p d (n, m)))))"

definition gramian_eigenpairs :: "'g externals \<Rightarrow> operand \<Rightarrow> int \<Rightarrow> int option \<Rightarrow> real \<Rightarrow> string
    \<Rightarrow> vector option \<Rightarrow> int option \<Rightarrow> string option \<Rightarrow> 'g
    \<Rightarrow> (error + primitives \<times> nat \<times> nat \<times> eigenpairs) \<times> 'g" where
  \<comment> \<open>lines 134 to 200: the lines above and the call of the eigensolver. The result has
      what the rest of \<open>svds\<close> reads, the primitives, the shape \<open>(n, m)\<close> and
      \<open>(eigvals, eigvec)\<close>, and the state the eigensolver leaves.\<close>
  "gramian_eigenpairs ext A k ncv tol which v0 maxiter solver g =
     (case prepare A k which of
        Inl e \<Rightarrow> (Inl e, g)
      | Inr (largest, p, n, m, XH_X) \<Rightarrow>
          (case solve ext XH_X (min n m) k ncv tol which largest v0 maxiter solver g of
             (Inl e, g1) \<Rightarrow> (Inl e, g1)
           | (Inr r, g1) \<Rightarrow> (Inr (p, n, m, r), g1)))"

definition svds :: "'g externals \<Rightarrow> operand \<Rightarrow> int \<Rightarrow> int option \<Rightarrow> real \<Rightarrow> string \<Rightarrow> vector option
                    \<Rightarrow> int option \<Rightarrow> pyarg \<Rightarrow> string option \<Rightarrow> 'g \<Rightarrow> (error + svds_result) \<times> 'g" where
  \<comment> \<open>the result of the call and the state of the random sources after it\<close>
  "svds ext A k ncv tol which v0 maxiter return_singular_vectors solver g =
     (case gramian_eigenpairs ext A k ncv tol which v0 maxiter solver g of
        (Inl e, g1) \<Rightarrow> (Inl e, g1)
      | (Inr (p, n, m, r), g1) \<Rightarrow> finish ext p n m k return_singular_vectors r g1)"

subsection \<open>Concrete inputs\<close>

text \<open>
  A generator whose state is the list of the numbers it will give, eigensolvers that
  return a fixed result, exact arithmetic, and a sort that leaves equal keys in index
  order.
\<close>

definition list_randn :: "real list sampler" where
  "list_randn n g = (take n g @ replicate (n - length g) 0, drop n g)"

definition fixed_solvers :: "error + eigenpairs \<Rightarrow> real list externals" where
  "fixed_solvers r =
     \<lparr>eigsh = (\<lambda>XH_X k tol maxiter ncv which v0 g. (r, g)),
      lobpcg = (\<lambda>XH_X X tol maxiter largest. r),
      randn = list_randn,
      RandomState_randn = (\<lambda>seed r c. np_zeros r c),
      fl_mul = (*), fl_sqrt = sqrt, tie_rank = (\<lambda>s i. 0)\<rparr>"

definition tall_matrix :: matrix where
  \<comment> \<open>the 3 by 2 matrix with rows (2, 0), (0, 1), (0, 0)\<close>
  "tall_matrix = \<lparr>nrows = 3, ncols = 2, dtype = Float64, cols = [[2, 0, 0], [0, 1, 0]]\<rparr>"

definition tall_top :: "np_dtype \<Rightarrow> eigenpairs" where
  \<comment> \<open>the largest eigenpair of its Gram matrix diag(4, 1), in a given dtype\<close>
  "tall_top dt = \<lparr>eigvals = [4], eigvec = \<lparr>nrows = 2, ncols = 1, dtype = dt, cols = [[1, 0]]\<rparr>\<rparr>"

definition rank_one_matrix :: matrix where
  \<comment> \<open>the 4 by 3 matrix whose only non-zero entry is a 2 in the first row and column\<close>
  "rank_one_matrix =
     \<lparr>nrows = 4, ncols = 3, dtype = Float64, cols = [[2, 0, 0, 0], [0, 0, 0, 0], [0, 0, 0, 0]]\<rparr>"

definition rank_one_pairs :: eigenpairs where
  \<comment> \<open>two eigenpairs of its Gram matrix diag(4, 0, 0), the smaller first\<close>
  "rank_one_pairs =
     \<lparr>eigvals = [0, 4],
      eigvec = \<lparr>nrows = 3, ncols = 2, dtype = Float64, cols = [[0, 1, 0], [1, 0, 0]]\<rparr>\<rparr>"

definition wide_matrix :: matrix where
  \<comment> \<open>the 3 by 4 matrix whose only non-zero entry is a 2 in the first row and column; its
      Gram matrix is diag(4, 0, 0) again\<close>
  "wide_matrix =
     \<lparr>nrows = 3, ncols = 4, dtype = Float64,
      cols = [[2, 0, 0], [0, 0, 0], [0, 0, 0], [0, 0, 0]]\<rparr>"

definition as_operator :: "matrix \<Rightarrow> np_dtype option attr \<Rightarrow> linear_operator" where
  \<comment> \<open>a \<open>LinearOperator\<close> that applies a matrix, with a given state of its \<open>dtype\<close> attribute\<close>
  "as_operator M a =
     \<lparr>shape = (nrows M, ncols M), op_dtype = a,
      matvec = dot_vec M, matmat = dot_mat M,
      rmatvec = dot_vec (herm M), rmatmat = dot_mat (herm M)\<rparr>"

definition raising_operator :: linear_operator where
  \<comment> \<open>a \<open>LinearOperator\<close> of shape (2, 3) with \<open>dtype = None\<close> whose products raise\<close>
  "raising_operator =
     \<lparr>shape = (2, 3), op_dtype = Present None,
      matvec = (\<lambda>x. Inl (ExternalError ''matvec'')),
      matmat = (\<lambda>x. Inl (ExternalError ''matmat'')),
      rmatvec = (\<lambda>x. Inl (ExternalError ''rmatvec'')),
      rmatmat = (\<lambda>x. Inl (ExternalError ''rmatmat''))\<rparr>"



definition first_axis_row :: matrix where
  \<comment> \<open>the first unit vector of length 3, as a 1 by 3 matrix\<close>
  "first_axis_row = \<lparr>nrows = 1, ncols = 3, dtype = Float64, cols = [[1], [0], [0]]\<rparr>"

section \<open>Basic facts\<close>

lemma bindE_simps [simp]: "bindE (Inl e) f = Inl e" "bindE (Inr x) f = f x"
  by (simp_all add: bindE_def)

lemma bindE_Inr_iff: "bindE r f = Inr y \<longleftrightarrow> (\<exists>x. r = Inr x \<and> f x = Inr y)"
  by (cases r) simp_all

lemma mask_select_map: "mask_select xs (map P xs) = filter P xs"
  by (induction xs) (simp_all add: mask_select_def)

lemma count_mask_map: "length (filter id (map P xs)) = length (filter P xs)"
  by (induction xs) simp_all

lemma cond_of_cases:
  "cond_of ext x = (if dtype x = Float32 \<or> dtype x = Complex64
       then Inr (fl_mul ext 1000 (1 / 2 ^ 23))
     else if dtype x = Float64 \<or> dtype x = Complex128
       then Inr (fl_mul ext 1000000 (1 / 2 ^ 52))
     else Inl (KeyError (lower (dtype_char (dtype x)))))"
  by (cases "dtype x") (simp_all add: cond_of_def lower_def lower_char_def factor_def finfo_eps_def)

lemma threshold_KeyError:
  "lower (dtype_char (dtype (eigvec r))) \<notin> {''f'', ''d''} \<Longrightarrow>
   threshold ext r = Inl (KeyError (lower (dtype_char (dtype (eigvec r)))))"
  by (cases "dtype (eigvec r)") (simp_all add: threshold_def cond_of_cases lower_def lower_char_def)

lemma threshold_Inr_dtype:
  "threshold ext r = Inr th \<Longrightarrow> lower (dtype_char (dtype (eigvec r))) \<in> {''f'', ''d''}"
  by (cases "dtype (eigvec r)") (simp_all add: threshold_def cond_of_cases lower_def lower_char_def)

lemma prepare_InrD:
  assumes "prepare A k which = Inr (largest, p, n, m, XH_X)"
  shows "\<exists>dl d. check_which which = Inr largest \<and> shape_of A = (n, m) \<and> 0 < k
           \<and> k < int (min n m) \<and> select_primitives A n m = Inr (p, dl) \<and> dtype_of A = Inr d
           \<and> XH_X = gram_operator p d (n, m)"
proof -
  obtain n' m' where sh: "shape_of A = (n', m')" by (cases "shape_of A")
  show ?thesis
    using assms unfolding prepare_def sh
    by (auto simp: bindE_Inr_iff split: if_splits)
qed

lemma prepare_Inr:
  assumes "check_which which = Inr largest" "shape_of A = (n, m)" "0 < k" "k < int (min n m)"
    and "select_primitives A n m = Inr (p, dl)" "dtype_of A = Inr d"
  shows "prepare A k which = Inr (largest, p, n, m, gram_operator p d (n, m))"
  using assms by (simp add: prepare_def)

lemma cond_of_randn: "cond_of (ext\<lparr>randn := rnd\<rparr>) x = cond_of ext x"
  by (simp add: cond_of_cases)

lemma threshold_randn: "threshold (ext\<lparr>randn := rnd\<rparr>) r = threshold ext r"
  unfolding threshold_def cond_of_randn by simp

lemma gramian_eigenpairs_InrD:
  assumes "gramian_eigenpairs ext A k ncv tol which v0 maxiter solver g = (Inr (p, n, m, r), g1)"
  shows "\<exists>largest dl d. check_which which = Inr largest \<and> shape_of A = (n, m) \<and> 0 < k
           \<and> k < int (min n m) \<and> select_primitives A n m = Inr (p, dl) \<and> dtype_of A = Inr d
           \<and> solve ext (gram_operator p d (n, m)) (min n m) k ncv tol which largest v0 maxiter
                 solver g = (Inr r, g1)"
proof -
  from assms obtain largest XH_X where
    pr: "prepare A k which = Inr (largest, p, n, m, XH_X)"
    and so: "solve ext XH_X (min n m) k ncv tol which largest v0 maxiter solver g = (Inr r, g1)"
    by (auto simp: gramian_eigenpairs_def split: sum.splits prod.splits)
  from prepare_InrD[OF pr] so show ?thesis by blast
qed

lemma threshold_Inr:
  assumes "eigvals r \<noteq> []" and "cond_of ext (eigvec r) = Inr c"
  shows "threshold ext r =
     Inr \<lparr>cutoff = fl_mul ext c (Max (set (clamp (eigvals r)))),
          above_cutoff = map (\<lambda>x. fl_mul ext c (Max (set (clamp (eigvals r)))) < x) (clamp (eigvals r)),
          nlarge = length (filter (\<lambda>x. fl_mul ext c (Max (set (clamp (eigvals r)))) < x)
                             (clamp (eigvals r))),
          slarge = map (fl_sqrt ext)
                     (filter (\<lambda>x. fl_mul ext c (Max (set (clamp (eigvals r)))) < x) (clamp (eigvals r))),
          svals = map (fl_sqrt ext)
                    (filter (\<lambda>x. fl_mul ext c (Max (set (clamp (eigvals r)))) < x) (clamp (eigvals r)))
                  @ replicate (length (eigvals r)
                       - length (filter (\<lambda>x. fl_mul ext c (Max (set (clamp (eigvals r)))) < x)
                                   (clamp (eigvals r)))) 0\<rparr>"
  using assms
  by (simp add: threshold_def np_max_def Let_def mask_select_map count_mask_map clamp_def)

lemmas eval_defs = svds_def gramian_eigenpairs_def prepare_def finish_def check_which_def solve_def
  fixed_solvers_def tall_top_def tall_matrix_def threshold_def cond_of_cases
  clamp_def np_max_def mask_select_def gram_operator_def Let_def np_sort_def
  rank_one_matrix_def rank_one_pairs_def wide_matrix_def

lemma map_insort_key: "map f (insort_key f x xs) = insort (f x) (map f xs)"
  by (induction xs) simp_all

lemma map_sort_key: "map f (sort_key f xs) = sort (map f xs)"
  by (induction xs) (simp_all add: map_insort_key)

lemma sort_permutation: "mset xs = mset ys \<Longrightarrow> sort xs = sort ys"
  by (rule properties_for_sort) simp_all

lemma mset_argsort [simp]: "mset (argsort rank s) = mset [0..<length s]"
  by (simp add: argsort_def)

lemma map_nth_argsort: "map (\<lambda>i. s ! i) (argsort rank s) = np_sort s"
proof -
  have "mset (map (\<lambda>i. s ! i) (sort_key (rank s) [0..<length s])) = mset (map (\<lambda>i. s ! i) [0..<length s])"
    by simp
  then have "sort (map (\<lambda>i. s ! i) (sort_key (rank s) [0..<length s])) = sort (map (\<lambda>i. s ! i) [0..<length s])"
    by (rule sort_permutation)
  then show ?thesis
    by (simp add: argsort_def np_sort_def map_sort_key map_nth)
qed

lemma length_argsort [simp]: "length (argsort rank s) = length s"
  by (simp add: argsort_def)

lemma set_argsort [simp]: "set (argsort rank s) = {0..<length s}"
  by (simp add: argsort_def)

lemma distinct_argsort [simp]: "distinct (argsort rank s)"
  by (simp add: argsort_def)

lemma position_nth:
  assumes "distinct idx" "j < length idx"
  shows "length (takeWhile (\<lambda>x. x \<noteq> idx ! j) idx) = j"
proof -
  have "takeWhile (\<lambda>x. x \<noteq> idx ! j) idx = take j idx"
    using assms by (intro takeWhile_eq_take_P_nth) (auto simp: nth_eq_iff_index_eq)
  with assms show ?thesis by simp
qed

lemma filter_eq_singleton: "distinct xs \<Longrightarrow> k \<in> set xs \<Longrightarrow> filter (\<lambda>x. k = x) xs = [k]"
  by (induction xs) (auto simp: filter_empty_conv)

lemma sort_key_position:
  fixes idx :: "nat list"
  assumes d: "distinct idx" and se: "mset idx = mset xs"
  shows "sort_key (\<lambda>i. length (takeWhile (\<lambda>x. x \<noteq> i) idx)) xs = idx"
proof (rule properties_for_sort_key)
  let ?f = "\<lambda>i. length (takeWhile (\<lambda>x. x \<noteq> i) idx)"
  show "mset idx = mset xs" by (rule se)
  have pos: "?f (idx ! j) = j" if "j < length idx" for j
    using position_nth[OF d that] .
  have "map ?f idx = [0..<length idx]"
  proof (rule nth_equalityI)
    show "length (map ?f idx) = length [0..<length idx]" by simp
    fix i assume "i < length (map ?f idx)"
    then have i: "i < length idx" by simp
    from pos[OF i] i show "map ?f idx ! i = [0..<length idx] ! i" by simp
  qed
  then show "sorted (map ?f idx)" by simp
  fix k assume k: "k \<in> set idx"
  have inj: "a = b" if "a \<in> set idx" "b \<in> set idx" "?f a = ?f b" for a b
  proof -
    from that(1) obtain i where i: "i < length idx" "idx ! i = a" by (auto simp: in_set_conv_nth)
    from that(2) obtain j where j: "j < length idx" "idx ! j = b" by (auto simp: in_set_conv_nth)
    from pos[OF i(1)] pos[OF j(1)] that(3) i(2) j(2) have "i = j" by simp
    with i j show ?thesis by simp
  qed
  from se have ss: "set xs = set idx" by (metis mset_eq_setD)
  from d se have dx: "distinct xs" by (metis mset_eq_imp_distinct_iff)
  have a: "filter (\<lambda>x. ?f k = ?f x) idx = filter (\<lambda>x. k = x) idx"
  proof (rule filter_cong[OF refl])
    fix x assume "x \<in> set idx"
    with k inj[of k x] show "(?f k = ?f x) = (k = x)" by blast
  qed
  have b: "filter (\<lambda>x. ?f k = ?f x) xs = filter (\<lambda>x. k = x) xs"
  proof (rule filter_cong[OF refl])
    fix x assume "x \<in> set xs"
    with k ss inj[of k x] show "(?f k = ?f x) = (k = x)" by blast
  qed
  have c: "filter (\<lambda>x. k = x) idx = [k]"
    using d k by (rule filter_eq_singleton)
  have e: "filter (\<lambda>x. k = x) xs = [k]"
    using dx k ss by (simp add: filter_eq_singleton)
  show "filter (\<lambda>x. ?f k = ?f x) idx = filter (\<lambda>x. ?f k = ?f x) xs"
    by (simp only: a b c e)
qed

lemma argsort_complete:
  assumes "mset idx = mset [0..<length s]" and "sorted (map (\<lambda>i. s ! i) idx)"
  shows "\<exists>rank. argsort rank s = idx"
proof -
  from assms(1) have d: "distinct idx"
    by (metis distinct_upt mset_eq_imp_distinct_iff)
  have a: "argsort (\<lambda>s' i. length (takeWhile (\<lambda>x. x \<noteq> i) idx)) s = idx"
    unfolding argsort_def sort_key_position[OF d assms(1)]
    using assms(2) by (rule sort_key_id_if_sorted)
  show ?thesis
    by (rule exI[of _ "\<lambda>s' i. length (takeWhile (\<lambda>x. x \<noteq> i) idx)"]) (rule a)
qed

lemma sorted_np_sort [simp]: "sorted (np_sort s)"
  by (simp add: np_sort_def)

lemma set_np_sort [simp]: "set (np_sort s) = set s"
  by (simp add: np_sort_def)

lemma length_np_sort [simp]: "length (np_sort s) = length s"
  by (simp add: np_sort_def)

lemma length_clamp [simp]: "length (clamp ev) = length ev"
  by (simp add: clamp_def)

lemma clamp_nonneg: "x \<in> set (clamp ev) \<Longrightarrow> 0 \<le> x"
  by (auto simp: clamp_def)

lemma threshold_InrD:
  assumes "threshold ext r = Inr th"
  shows "eigvals r \<noteq> [] \<and> length (svals th) = length (eigvals r)
         \<and> nlarge th \<le> length (eigvals r) \<and> length (slarge th) = nlarge th
         \<and> length (above_cutoff th) = length (eigvals r)
         \<and> length (filter id (above_cutoff th)) = nlarge th
         \<and> ((\<forall>x. 0 \<le> x \<longrightarrow> 0 \<le> fl_sqrt ext x) \<longrightarrow> (\<forall>x\<in>set (svals th). 0 \<le> x))"
proof -
  from assms obtain c where co: "cond_of ext (eigvec r) = Inr c" and ne: "eigvals r \<noteq> []"
    unfolding threshold_def Let_def bindE_Inr_iff np_max_def
    by (cases "eigvals r = []") (auto simp: clamp_def)
  define P where "P = (\<lambda>x. fl_mul ext c (Max (set (clamp (eigvals r)))) < x)"
  define ev where "ev = clamp (eigvals r)"
  have le: "length (filter P ev) \<le> length (eigvals r)"
    using length_filter_le[of P ev] by (simp add: ev_def)
  have nn: "0 \<le> x" if "x \<in> set ev" for x
    using that clamp_nonneg by (simp add: ev_def)
  from assms threshold_Inr[OF ne co] have th:
    "th = \<lparr>cutoff = fl_mul ext c (Max (set ev)), above_cutoff = map P ev,
           nlarge = length (filter P ev), slarge = map (fl_sqrt ext) (filter P ev),
           svals = map (fl_sqrt ext) (filter P ev)
                   @ replicate (length (eigvals r) - length (filter P ev)) 0\<rparr>"
    by (simp add: P_def ev_def)
  have 1: "length (svals th) = length (eigvals r)" using le by (simp add: th)
  have 2: "(\<forall>x. 0 \<le> x \<longrightarrow> 0 \<le> fl_sqrt ext x) \<longrightarrow> (\<forall>x\<in>set (svals th). 0 \<le> x)"
    using nn by (auto simp: th)
  have 3: "nlarge th \<le> length (eigvals r)" using le by (simp add: th)
  have 4: "length (slarge th) = nlarge th" by (simp add: th)
  have 5: "length (above_cutoff th) = length (eigvals r)" by (simp add: th ev_def)
  have 6: "length (filter id (above_cutoff th)) = nlarge th" by (simp add: th count_mask_map)
  from ne 1 2 3 4 5 6 show ?thesis by blast
qed

lemma finish_values:
  "threshold ext r = Inr th \<Longrightarrow> \<not> truthy rsv \<Longrightarrow>
   finish ext p n m k rsv r g = (Inr (Values (np_sort (svals th))), g)"
  by (simp add: finish_def)

lemma finish_InrD:
  assumes "finish ext p n m k rsv r g = (Inr res, g1)"
  shows "\<exists>th. threshold ext r = Inr th \<and>
     (if \<not> truthy rsv then res = Values (np_sort (svals th)) \<and> g1 = g
      else \<exists>ularge vhlarge u0 vh0.
             large_vectors p n m rsv (eigvec r) (above_cutoff th) (slarge th) = Inr (ularge, vhlarge)
           \<and> augment_sides (randn ext) ularge vhlarge (nat (k - int (nlarge th))) g = (u0, vh0, g1)
           \<and> sort_triplets (tie_rank ext) u0 (svals th) vh0 = Inr res)"
proof -
  from assms obtain th where th: "threshold ext r = Inr th"
    by (cases "threshold ext r") (auto simp: finish_def)
  show ?thesis
  proof (cases "truthy rsv")
    case False
    with assms th show ?thesis by (auto simp: finish_def)
  next
    case True
    with assms th obtain ularge vhlarge where
      lv: "large_vectors p n m rsv (eigvec r) (above_cutoff th) (slarge th) = Inr (ularge, vhlarge)"
      by (cases "large_vectors p n m rsv (eigvec r) (above_cutoff th) (slarge th)")
         (auto simp: finish_def)
    obtain u0 vh0 g2 where au:
      "augment_sides (randn ext) ularge vhlarge (nat (k - int (nlarge th))) g = (u0, vh0, g2)"
      by (cases "augment_sides (randn ext) ularge vhlarge (nat (k - int (nlarge th))) g") auto
    from assms th True lv au have "sort_triplets (tie_rank ext) u0 (svals th) vh0 = Inr res" "g2 = g1"
      by (auto simp: finish_def)
    with th True lv au show ?thesis by auto
  qed
qed


lemma svds_InrD:
  assumes "svds ext A k ncv tol which v0 maxiter rsv solver g = (Inr res, g1)"
  shows "\<exists>p n m r ge. gramian_eigenpairs ext A k ncv tol which v0 maxiter solver g
                          = (Inr (p, n, m, r), ge)
           \<and> finish ext p n m k rsv r ge = (Inr res, g1)"
  using assms by (auto simp: svds_def split: sum.splits prod.splits)

lemma svds_Inr:
  "gramian_eigenpairs ext A k ncv tol which v0 maxiter solver g = (Inr (p, n, m, r), ge) \<Longrightarrow>
   svds ext A k ncv tol which v0 maxiter rsv solver g = finish ext p n m k rsv r ge"
  by (simp add: svds_def)

lemma svds_Inl:
  "gramian_eigenpairs ext A k ncv tol which v0 maxiter solver g = (Inl e, ge) \<Longrightarrow>
   svds ext A k ncv tol which v0 maxiter rsv solver g = (Inl e, ge)"
  by (simp add: svds_def)

lemma solve_randn:
  "solve (ext\<lparr>randn := rnd\<rparr>) XH_X mn k ncv tol which largest v0 maxiter solver g
   = solve ext XH_X mn k ncv tol which largest v0 maxiter solver g"
  by (simp add: solve_def initial_block_def split: option.splits)

lemma gramian_eigenpairs_randn:
  "gramian_eigenpairs (ext\<lparr>randn := rnd\<rparr>) A k ncv tol which v0 maxiter solver g
   = gramian_eigenpairs ext A k ncv tol which v0 maxiter solver g"
  unfolding gramian_eigenpairs_def solve_randn by (rule refl)

lemma sort_triplets_Inr_values:
  "sort_triplets rank u s vh = Inr res \<Longrightarrow> \<exists>u1 vh1. res = Triplet u1 (np_sort s) vh1"
  by (auto simp: sort_triplets_def Let_def bindE_Inr_iff map_nth_argsort)

lemma select_cols_InrD:
  "select_cols x msk = Inr y \<Longrightarrow> ncols y = length (filter id msk) \<and> nrows y = nrows x"
  by (auto simp: select_cols_def split: if_splits)

lemma div_cols_InrD:
  "div_cols x s = Inr y \<Longrightarrow> ncols y = length s \<and> nrows y = nrows x"
  by (auto simp: div_cols_def split: if_splits)

lemma rescale_InrD:
  "rescale f v sl = Inr y \<Longrightarrow> ncols y = length sl"
  by (auto simp: rescale_def bindE_Inr_iff dest: div_cols_InrD)

lemma herm_shape [simp]: "nrows (herm x) = ncols x" "ncols (herm x) = nrows x"
  by (simp_all add: herm_def conj_m_def transpose_m_def)

lemma large_vectors_InrD:
  assumes "large_vectors p n m rsv ev msk sl = Inr (ul, vl)"
    and "length (filter id msk) = length sl"
  shows "(n > m \<longrightarrow> (\<exists>v. vl = Some v \<and> nrows v = length sl)
                  \<and> (ul = None \<longleftrightarrow> rsv = PyStr ''vh'')
                  \<and> (\<forall>u. ul = Some u \<longrightarrow> ncols u = length sl))
       \<and> (\<not> n > m \<longrightarrow> (\<exists>u. ul = Some u \<and> ncols u = length sl)
                  \<and> (vl = None \<longleftrightarrow> rsv = PyStr ''u'')
                  \<and> (\<forall>v. vl = Some v \<longrightarrow> nrows v = length sl))"
proof (cases "n > m")
  case True
  with assms(1) obtain vlarge where sc: "select_cols ev msk = Inr vlarge"
    and vl: "vl = Some (herm vlarge)"
    and ul: "(if rsv \<noteq> PyStr ''vh''
              then bindE (rescale (X_matmat p) vlarge sl) (\<lambda>q. Inr (Some q))
              else Inr None) = Inr ul"
    by (auto simp: large_vectors_def bindE_Inr_iff)
  from select_cols_InrD[OF sc] assms(2) have "nrows (herm vlarge) = length sl" by simp
  moreover from ul have "ul = None \<longleftrightarrow> rsv = PyStr ''vh''"
    by (auto simp: bindE_Inr_iff split: if_splits)
  moreover from ul have "\<forall>u. ul = Some u \<longrightarrow> ncols u = length sl"
    by (auto simp: bindE_Inr_iff split: if_splits dest: rescale_InrD)
  ultimately show ?thesis using True vl by simp
next
  case False
  with assms(1) obtain ularge where sc: "select_cols ev msk = Inr ularge"
    and ul: "ul = Some ularge"
    and vl: "(if rsv \<noteq> PyStr ''u''
              then bindE (rescale (X_matmat p) ularge sl) (\<lambda>q. Inr (Some (herm q)))
              else Inr None) = Inr vl"
    by (auto simp: large_vectors_def bindE_Inr_iff)
  from select_cols_InrD[OF sc] assms(2) have "ncols ularge = length sl" by simp
  moreover from vl have "vl = None \<longleftrightarrow> rsv = PyStr ''u''"
    by (auto simp: bindE_Inr_iff split: if_splits)
  moreover from vl have "\<forall>v. vl = Some v \<longrightarrow> nrows v = length sl"
    by (auto simp: bindE_Inr_iff split: if_splits dest: rescale_InrD)
  ultimately show ?thesis using False ul by simp
qed


lemma augmented_orthonormal_cols_shape:
  "augmented_orthonormal_cols rnd x c g = (y, g1) \<Longrightarrow> nrows y = nrows x \<and> ncols y = ncols x + c"
  by (auto simp: augmented_orthonormal_cols_def Let_def split: prod.splits)

lemma augmented_orthonormal_rows_shape:
  "augmented_orthonormal_rows rnd x c g = (y, g1) \<Longrightarrow> nrows y = nrows x + c \<and> ncols y = ncols x"
  by (auto simp: augmented_orthonormal_rows_def augmented_orthonormal_cols_def transpose_m_def Let_def
           split: prod.splits)

lemma augment_sides_D:
  assumes "augment_sides rnd ul vl c g = (u0, vh0, g1)"
  shows "(case ul of None \<Rightarrow> u0 = None
          | Some x \<Rightarrow> \<exists>y. u0 = Some y \<and> ncols y = ncols x + c \<and> nrows y = nrows x)
       \<and> (case vl of None \<Rightarrow> vh0 = None
          | Some x \<Rightarrow> \<exists>y. vh0 = Some y \<and> nrows y = nrows x + c \<and> ncols y = ncols x)"
  using assms
  by (auto simp: augment_sides_def Let_def split: option.splits prod.splits
           dest: augmented_orthonormal_cols_shape augmented_orthonormal_rows_shape)

lemma take_cols_InrD:
  "take_cols x idx = Inr y \<Longrightarrow>
     ncols y = length idx \<and> nrows y = nrows x \<and> (\<forall>j<length idx. cols y ! j = cols x ! (idx ! j))"
  by (auto simp: take_cols_def split: if_splits)

lemma take_rows_InrD:
  "take_rows x idx = Inr y \<Longrightarrow>
     nrows y = length idx \<and> ncols y = ncols x \<and> (\<forall>j<length idx. row y j = row x (idx ! j))"
  by (auto simp: take_rows_def row_def split: if_splits)

lemma sort_triplets_InrD:
  assumes "sort_triplets rank u0 s vh0 = Inr res"
  shows "\<exists>u vh. res = Triplet u (np_sort s) vh
          \<and> (case u0 of None \<Rightarrow> u = None
              | Some U0 \<Rightarrow> \<exists>U. u = Some U \<and> take_cols U0 (argsort rank s) = Inr U)
          \<and> (case vh0 of None \<Rightarrow> vh = None
              | Some V0 \<Rightarrow> \<exists>V. vh = Some V \<and> take_rows V0 (argsort rank s) = Inr V)"
  using assms
  by (auto simp: sort_triplets_def Let_def bindE_Inr_iff map_nth_argsort split: option.splits)


lemma herm_entry:
  assumes "wf_matrix M" "i < nrows M" "j < ncols M"
  shows "cols (herm M) ! i ! j = cnj (cols M ! j ! i)"
  using assms by (simp add: herm_def conj_m_def transpose_m_def wf_matrix_def)

lemma solve_unrecognized:
  "solver \<notin> {Some ''lobpcg'', Some ''arpack'', None} \<Longrightarrow>
   solve ext XH_X mn k ncv tol which largest v0 maxiter solver g
     = (Inl (ValueError ''solver must be either arpack, or lobpcg.''), g)"
  by (auto simp: solve_def)

lemma gramian_eigenpairs_unrecognized:
  assumes "solver \<notin> {Some ''lobpcg'', Some ''arpack'', None}"
  shows "gramian_eigenpairs ext A k ncv tol which v0 maxiter solver g =
     (case prepare A k which of
        Inl e \<Rightarrow> (Inl e, g)
      | Inr x \<Rightarrow> (Inl (ValueError ''solver must be either arpack, or lobpcg.''), g))"
  unfolding gramian_eigenpairs_def solve_unrecognized[OF assms]
  by (simp split: sum.splits prod.splits)

lemma gramian_eigenpairs_unrecognized_Inl:
  assumes "solver \<notin> {Some ''lobpcg'', Some ''arpack'', None}"
  shows "\<exists>e. gramian_eigenpairs ext A k ncv tol which v0 maxiter solver g = (Inl e, g)"
  unfolding gramian_eigenpairs_unrecognized[OF assms]
  by (cases "prepare A k which") simp_all

lemma solve_lobpcg:
  "solve ext XH_X mn k ncv tol which largest v0 maxiter (Some ''lobpcg'') g
     = (lobpcg ext XH_X (initial_block ext mn k v0) (tol ^ 2) maxiter largest, g)"
  by (simp add: solve_def)

lemma gramian_eigenpairs_lobpcg:
  "gramian_eigenpairs ext A k ncv tol which v0 maxiter (Some ''lobpcg'') g
     = (fst (gramian_eigenpairs ext A k ncv tol which v0 maxiter (Some ''lobpcg'') g'), g)"
  unfolding gramian_eigenpairs_def solve_lobpcg
  by (simp split: sum.splits prod.splits)

lemma orthonormal_iff:
  "orthonormal ys \<longleftrightarrow>
     (\<forall>i<length ys. \<forall>j<length ys. hdot (ys ! i) (ys ! j) = (if i = j then 1 else 0))"
  by (auto simp: orthonormal_def list_all_iff)

lemma hdot_Nil [simp]: "hdot [] u = 0" "hdot v [] = 0"
  by (simp_all add: hdot_def np_dot_def vconj_def)

lemma hdot_Cons [simp]: "hdot (a # v) (b # u) = a * cnj b + hdot v u"
  by (simp add: hdot_def np_dot_def vconj_def)

lemma vec_ops_simps [simp]:
  "vsub (a # v) (b # w) = (a - b) # vsub v w" "vsub [] w = []" "vsub v [] = []"
  "vscale c (a # v) = c * a # vscale c v" "vscale c [] = []"
  "vdiv (a # v) c = a / c # vdiv v c" "vdiv [] c = []"
  by (simp_all add: vsub_def vscale_def vdiv_def)

lemma length_vec_ops [simp]:
  "length (vsub v w) = min (length v) (length w)"
  "length (vscale c v) = length v" "length (vdiv v c) = length v"
  by (simp_all add: vsub_def vscale_def vdiv_def)










lemma length_normalize [simp]: "length (normalize v) = length v"
  by (simp add: normalize_def)










lemma take_cols_success:
  "take_cols x idx = Inr y \<Longrightarrow> ncols x' = ncols x \<Longrightarrow> \<exists>y'. take_cols x' idx = Inr y'"
  by (auto simp: take_cols_def split: if_splits)

lemma take_rows_success:
  "take_rows x idx = Inr y \<Longrightarrow> nrows x' = nrows x \<Longrightarrow> \<exists>y'. take_rows x' idx = Inr y'"
  by (auto simp: take_rows_def split: if_splits)

lemma sort_triplets_success:
  assumes "sort_triplets rank u0 s vh0 = Inr res"
    and "case u0 of None \<Rightarrow> u1 = None | Some x \<Rightarrow> \<exists>x'. u1 = Some x' \<and> ncols x' = ncols x"
    and "case vh0 of None \<Rightarrow> vh1 = None | Some x \<Rightarrow> \<exists>x'. vh1 = Some x' \<and> nrows x' = nrows x"
  shows "\<exists>res'. sort_triplets rank u1 s vh1 = Inr res' \<and> values_of res' = values_of res"
proof -
  from sort_triplets_InrD[OF assms(1)] obtain u vh where
    r: "res = Triplet u (np_sort s) vh"
    and uu: "case u0 of None \<Rightarrow> u = None
              | Some U0 \<Rightarrow> \<exists>U. u = Some U \<and> take_cols U0 (argsort rank s) = Inr U"
    and vv: "case vh0 of None \<Rightarrow> vh = None
              | Some V0 \<Rightarrow> \<exists>V. vh = Some V \<and> take_rows V0 (argsort rank s) = Inr V"
    by blast
  have a: "\<exists>a. (case u1 of None \<Rightarrow> Inr None
                | Some x \<Rightarrow> bindE (take_cols x (argsort rank s)) (\<lambda>y. Inr (Some y))) = Inr a"
  proof (cases u0)
    case None
    with assms(2) show ?thesis by simp
  next
    case (Some x)
    with assms(2) obtain x' where x': "u1 = Some x'" "ncols x' = ncols x" by auto
    from Some uu obtain U where "take_cols x (argsort rank s) = Inr U" by auto
    from take_cols_success[OF this x'(2)] x'(1) show ?thesis by auto
  qed
  have b: "\<exists>b. (case vh1 of None \<Rightarrow> Inr None
                | Some x \<Rightarrow> bindE (take_rows x (argsort rank s)) (\<lambda>y. Inr (Some y))) = Inr b"
  proof (cases vh0)
    case None
    with assms(3) show ?thesis by simp
  next
    case (Some x)
    with assms(3) obtain x' where x': "vh1 = Some x'" "nrows x' = nrows x" by auto
    from Some vv obtain V where "take_rows x (argsort rank s) = Inr V" by auto
    from take_rows_success[OF this x'(2)] x'(1) show ?thesis by auto
  qed
  from a b obtain a' b' where
    "(case u1 of None \<Rightarrow> Inr None
                | Some x \<Rightarrow> bindE (take_cols x (argsort rank s)) (\<lambda>y. Inr (Some y))) = Inr a'"
    "(case vh1 of None \<Rightarrow> Inr None
                | Some x \<Rightarrow> bindE (take_rows x (argsort rank s)) (\<lambda>y. Inr (Some y))) = Inr b'"
    by blast
  then have "sort_triplets rank u1 s vh1 = Inr (Triplet a' (np_sort s) b')"
    by (simp add: sort_triplets_def Let_def map_nth_argsort)
  with r show ?thesis by simp
qed

lemma augment_sides_shapes:
  assumes "augment_sides rnd ul vl c g = (u0, vh0, g1)"
    and "augment_sides rnd ul vl c g' = (u1, vh1, g1')"
  shows "(case u0 of None \<Rightarrow> u1 = None | Some x \<Rightarrow> \<exists>x'. u1 = Some x' \<and> ncols x' = ncols x)
       \<and> (case vh0 of None \<Rightarrow> vh1 = None | Some x \<Rightarrow> \<exists>x'. vh1 = Some x' \<and> nrows x' = nrows x)"
  using augment_sides_D[OF assms(1)] augment_sides_D[OF assms(2)]
  by (cases ul; cases vl) auto

lemma augmented_orthonormal_cols_0:
  "augmented_orthonormal_cols rnd x 0 g = (fst (augmented_orthonormal_cols rnd x 0 g'), g)"
  by (simp add: augmented_orthonormal_cols_def)

lemma augmented_orthonormal_rows_0:
  "augmented_orthonormal_rows rnd x 0 g = (fst (augmented_orthonormal_rows rnd x 0 g'), g)"
  by (simp add: augmented_orthonormal_rows_def augmented_orthonormal_cols_def)

lemma augment_sides_no_padding:
  "\<exists>u0 vh0. augment_sides rnd ul vl 0 g = (u0, vh0, g) \<and> augment_sides rnd ul vl 0 g' = (u0, vh0, g')"
  by (cases ul; cases vl)
     (simp_all add: augment_sides_def augmented_orthonormal_cols_def augmented_orthonormal_rows_def)


lemma orthonormal_permute:
  assumes "orthonormal ys" "distinct idx" "\<forall>i\<in>set idx. i < length ys"
  shows "orthonormal (map (\<lambda>i. ys ! i) idx)"
  unfolding orthonormal_iff
proof (intro allI impI)
  fix a b assume ab: "a < length (map (\<lambda>i. ys ! i) idx)" "b < length (map (\<lambda>i. ys ! i) idx)"
  then have la: "idx ! a < length ys" and lb: "idx ! b < length ys"
    using assms(3) by simp_all
  from ab assms(2) have eq: "idx ! a = idx ! b \<longleftrightarrow> a = b"
    by (simp add: nth_eq_iff_index_eq)
  from assms(1) la lb have "hdot (ys ! (idx ! a)) (ys ! (idx ! b)) = (if idx ! a = idx ! b then 1 else 0)"
    by (simp add: orthonormal_iff)
  with ab eq show "hdot (map (\<lambda>i. ys ! i) idx ! a) (map (\<lambda>i. ys ! i) idx ! b) = (if a = b then 1 else 0)"
    by simp
qed

lemma row_transpose:
  assumes "wf_matrix y" "j < ncols y"
  shows "row (transpose_m y) j = cols y ! j"
proof -
  from assms have lj: "j < length (cols y)" and ll: "length (cols y ! j) = nrows y"
    by (simp_all add: wf_matrix_def list_all_iff)
  have "row (transpose_m y) j = map (\<lambda>i. cols y ! j ! i) [0..<nrows y]"
    using lj by (simp add: row_def transpose_m_def)
  also have "\<dots> = cols y ! j" using ll map_nth[of "cols y ! j"] by simp
  finally show ?thesis .
qed

lemma take_cols_orthonormal:
  assumes "take_cols x idx = Inr y" "orthonormal (cols x)" "distinct idx" "length (cols x) = ncols x"
  shows "orthonormal (cols y)"
proof -
  from assms(1) have i: "\<forall>i\<in>set idx. i < ncols x" and c: "cols y = map (\<lambda>i. cols x ! i) idx"
    by (auto simp: take_cols_def list_all_iff split: if_splits)
  from orthonormal_permute[OF assms(2,3)] i assms(4) show ?thesis unfolding c by simp
qed

lemma take_rows_transpose_orthonormal:
  assumes "take_rows (transpose_m y) idx = Inr V" "wf_matrix y" "orthonormal (cols y)" "distinct idx"
  shows "orthonormal (map (row V) [0..<nrows V])"
proof -
  from assms(1) have i: "\<forall>i\<in>set idx. i < ncols y" and nr: "nrows V = length idx"
    and c: "cols V = map (\<lambda>c. map (\<lambda>i. c ! i) idx) (cols (transpose_m y))"
    by (auto simp: take_rows_def list_all_iff transpose_m_def split: if_splits)
  have "row V j = cols y ! (idx ! j)" if "j < length idx" for j
  proof -
    have "row V j = row (transpose_m y) (idx ! j)"
      using that by (simp add: row_def c)
    also have "\<dots> = cols y ! (idx ! j)"
      using row_transpose[OF assms(2)] i that by simp
    finally show ?thesis .
  qed
  then have "map (row V) [0..<nrows V] = map (\<lambda>j. cols y ! (idx ! j)) [0..<length idx]"
    unfolding nr by simp
  also have "\<dots> = map (\<lambda>i. cols y ! i) (map (\<lambda>j. idx ! j) [0..<length idx])"
    by simp
  also have "\<dots> = map (\<lambda>i. cols y ! i) idx" by (simp only: map_nth)
  finally have e: "map (row V) [0..<nrows V] = map (\<lambda>i. cols y ! i) idx" .
  from assms(2) have "length (cols y) = ncols y" by (simp add: wf_matrix_def)
  with orthonormal_permute[OF assms(3,4)] i show ?thesis unfolding e by simp
qed



lemma wf_transpose: "wf_matrix x \<Longrightarrow> wf_matrix (transpose_m x)"
  by (simp add: wf_matrix_def transpose_m_def list_all_iff)

lemma augment_sides_eq:
  "augment_sides rnd ul vl c g = (u0, vh0, g1) \<Longrightarrow>
     u0 = map_option (\<lambda>x. fst (augmented_orthonormal_cols rnd x c g)) ul
   \<and> vh0 = map_option (\<lambda>x. fst (augmented_orthonormal_rows rnd x c
               (case ul of None \<Rightarrow> g | Some z \<Rightarrow> snd (augmented_orthonormal_cols rnd z c g)))) vl"
  by (cases ul; cases vl) (auto simp: augment_sides_def Let_def split: prod.splits)


lemmas vec_defs = large_vectors_def select_cols_def rescale_def div_cols_def dot_mat_def
  herm_def conj_m_def transpose_m_def augment_sides_def augmented_orthonormal_cols_def
  augmented_orthonormal_rows_def sample_vector_def list_randn_def normalize_def
  np_dot_def vconj_def vsub_def vadd_def vscale_def vdiv_def iscomplexobj_def result_type_def
  dtype_of_rank_def sort_triplets_def argsort_def take_cols_def take_rows_def

lemma rank_one_full_call:
  "svds (fixed_solvers (Inr rank_one_pairs)) (Array rank_one_matrix) 2 None 0 ''LM'' None None
          (PyBool True) None [3, 2, 0, 0, 5, 0, 2] =
   (Inr (Triplet
      (Some \<lparr>nrows = 4, ncols = 2, dtype = Float64, cols = [[0, 1, 0, 0], [1, 0, 0, 0]]\<rparr>)
      [0, 2]
      (Some \<lparr>nrows = 2, ncols = 3, dtype = Float64, cols = [[0, 1], [0, 0], [1, 0]]\<rparr>)), [])"
  by (simp add: eval_defs vec_defs upt_rec numeral_eq_Suc)

lemma rank_one_right_only_call:
  "svds (fixed_solvers (Inr rank_one_pairs)) (Array rank_one_matrix) 2 None 0 ''LM'' None None
          (PyStr ''vh'') None [3, 2, 0, 0, 5, 0, 2] =
   (Inr (Triplet None [0, 2]
      (Some \<lparr>nrows = 2, ncols = 3, dtype = Float64, cols = [[0, 1], [1, 0], [0, 0]]\<rparr>)),
    [0, 5, 0, 2])"
  by (simp add: eval_defs vec_defs upt_rec numeral_eq_Suc)

lemma wide_left_only_call:
  "svds (fixed_solvers (Inr rank_one_pairs)) (Array wide_matrix) 2 None 0 ''LM'' None None
          (PyStr ''u'') None [3, 2, 0, 0, 5, 0, 2] =
   (Inr (Triplet
      (Some \<lparr>nrows = 3, ncols = 2, dtype = Float64, cols = [[0, 1, 0], [1, 0, 0]]\<rparr>)
      [0, 2] None),
    [0, 5, 0, 2])"
  by (simp add: eval_defs vec_defs upt_rec numeral_eq_Suc)

lemma rank_one_lobpcg_call:
  "svds (fixed_solvers (Inr rank_one_pairs)) (Array rank_one_matrix) 2 None 0 ''LM'' None None
          (PyBool True) (Some ''lobpcg'') [3, 2, 0, 0, 5, 0, 2] =
   (Inr (Triplet
      (Some \<lparr>nrows = 4, ncols = 2, dtype = Float64, cols = [[0, 1, 0, 0], [1, 0, 0, 0]]\<rparr>)
      [0, 2]
      (Some \<lparr>nrows = 2, ncols = 3, dtype = Float64, cols = [[0, 1], [0, 0], [1, 0]]\<rparr>)), [])"
  by (simp add: eval_defs vec_defs upt_rec numeral_eq_Suc)

lemma tall_lobpcg_call:
  "svds (fixed_solvers (Inr (tall_top Float64))) (Array tall_matrix) 1 None 0 ''LM'' None None
          (PyBool True) (Some ''lobpcg'') [] =
   (Inr (Triplet
      (Some \<lparr>nrows = 3, ncols = 1, dtype = Float64, cols = [[1, 0, 0]]\<rparr>)
      [2]
      (Some \<lparr>nrows = 1, ncols = 2, dtype = Float64, cols = [[1], [0]]\<rparr>)), [])"
  by (simp add: eval_defs vec_defs upt_rec numeral_eq_Suc)

section \<open>The precision table\<close>

text \<open>
  Claim C10. Once the eigensolver has returned, a call whose eigenvectors have a dtype
  character that, lowered, is neither \<open>f\<close> nor \<open>d\<close> ends in the lookup \<open>factor[t]\<close>
  with a \<open>KeyError\<close>, whatever output mode was asked for; so a call that returns a result
  had eigenvectors of dtype \<open>float32\<close>, \<open>float64\<close>, \<open>complex64\<close> or \<open>complex128\<close>.
\<close>

theorem svds_precision_lookup:
  "(gramian_eigenpairs ext A k ncv tol which v0 maxiter solver g = (Inr (p, n, m, r), ge) \<and>
      lower (dtype_char (dtype (eigvec r))) \<notin> {''f'', ''d''}
    \<longrightarrow> svds ext A k ncv tol which v0 maxiter rsv solver g
          = (Inl (KeyError (lower (dtype_char (dtype (eigvec r))))), ge))
   \<and> (svds ext A k ncv tol which v0 maxiter rsv solver g = (Inr res, g1)
    \<longrightarrow> (\<exists>p n m r ge. gramian_eigenpairs ext A k ncv tol which v0 maxiter solver g
                             = (Inr (p, n, m, r), ge)
           \<and> lower (dtype_char (dtype (eigvec r))) \<in> {''f'', ''d''}
           \<and> dtype (eigvec r) \<in> {Float32, Float64, Complex64, Complex128}))"
proof (intro conjI impI)
  assume h: "gramian_eigenpairs ext A k ncv tol which v0 maxiter solver g = (Inr (p, n, m, r), ge) \<and>
      lower (dtype_char (dtype (eigvec r))) \<notin> {''f'', ''d''}"
  then have "threshold ext r = Inl (KeyError (lower (dtype_char (dtype (eigvec r)))))"
    by (simp add: threshold_KeyError)
  with h show "svds ext A k ncv tol which v0 maxiter rsv solver g
          = (Inl (KeyError (lower (dtype_char (dtype (eigvec r))))), ge)"
    by (simp add: svds_def finish_def)
next
  assume h: "svds ext A k ncv tol which v0 maxiter rsv solver g = (Inr res, g1)"
  from svds_InrD[OF h] obtain p n m r ge where
    ge: "gramian_eigenpairs ext A k ncv tol which v0 maxiter solver g = (Inr (p, n, m, r), ge)"
    and fin: "finish ext p n m k rsv r ge = (Inr res, g1)"
    by blast
  from fin obtain th where th: "threshold ext r = Inr th"
    by (cases "threshold ext r") (auto simp: finish_def)
  from threshold_Inr_dtype[OF th] have c: "lower (dtype_char (dtype (eigvec r))) \<in> {''f'', ''d''}" .
  then have "dtype (eigvec r) \<in> {Float32, Float64, Complex64, Complex128}"
    by (cases "dtype (eigvec r)") (simp_all add: lower_def lower_char_def)
  with ge c show "\<exists>p n m r ge. gramian_eigenpairs ext A k ncv tol which v0 maxiter solver g
                             = (Inr (p, n, m, r), ge)
           \<and> lower (dtype_char (dtype (eigvec r))) \<in> {''f'', ''d''}
           \<and> dtype (eigvec r) \<in> {Float32, Float64, Complex64, Complex128}"
    by blast
qed

theorem svds_precision_lookup_witness:
  "svds (fixed_solvers (Inr (tall_top Float16))) (Array tall_matrix) 1 None 0 ''LM'' None None
        (PyBool True) None [1, 2, 3] = (Inl (KeyError ''e''), [1, 2, 3])
   \<and> (\<exists>p n m r ge. gramian_eigenpairs (fixed_solvers (Inr (tall_top Float64))) (Array tall_matrix)
                   1 None 0 ''LM'' None None None [1, 2, 3] = (Inr (p, n, m, r), ge)
        \<and> dtype (eigvec r) \<in> {Float32, Float64, Complex64, Complex128})"
proof -
  obtain p where g1: "gramian_eigenpairs (fixed_solvers (Inr (tall_top Float16))) (Array tall_matrix)
                   1 None 0 ''LM'' None None None [1, 2, 3] = (Inr (p, 3, 2, tall_top Float16), [1, 2, 3])"
    by (simp add: eval_defs)
  have n1: "lower (dtype_char (dtype (eigvec (tall_top Float16)))) \<notin> {''f'', ''d''}"
    by (simp add: tall_top_def lower_def lower_char_def)
  have s2: "svds (fixed_solvers (Inr (tall_top Float64))) (Array tall_matrix) 1 None 0 ''LM'' None
              None (PyBool False) None [1, 2, 3] = (Inr (Values [2]), [1, 2, 3])"
    by (simp add: eval_defs)
  have a: "svds (fixed_solvers (Inr (tall_top Float16))) (Array tall_matrix) 1 None 0 ''LM'' None None
        (PyBool True) None [1, 2, 3] = (Inl (KeyError ''e''), [1, 2, 3])"
    using svds_precision_lookup[THEN conjunct1, rule_format, OF conjI[OF g1 n1]]
    by (simp add: tall_top_def lower_def lower_char_def)
  have b: "\<exists>p n m r ge. gramian_eigenpairs (fixed_solvers (Inr (tall_top Float64))) (Array tall_matrix)
                   1 None 0 ''LM'' None None None [1, 2, 3] = (Inr (p, n, m, r), ge)
        \<and> dtype (eigvec r) \<in> {Float32, Float64, Complex64, Complex128}"
    using svds_precision_lookup[THEN conjunct2, rule_format, OF s2] by blast
  from a b show ?thesis by blast
qed

section \<open>The degeneracy classifier\<close>

text \<open>
  Claim C2. When the eigensolver has returned \<open>k\<close> eigenvalues and eigenvectors of
  lowered dtype character \<open>f\<close> or \<open>d\<close>, \<open>svds\<close> clamps every eigenvalue to the maximum of
  its real part and 0, takes as cutoff the product of the factor (1e3 for \<open>f\<close>, 1e6 for
  \<open>d\<close>), the machine epsilon (2 to the -23 and 2 to the -52) and the largest clamped
  eigenvalue, marks exactly the eigenvalues strictly above the cutoff, and builds an array
  of length \<open>k\<close>: the square roots of the marked eigenvalues, in their order, then zeros.
  The two products and the square roots are those of NumPy, rounded as NumPy rounds them:
  the statement holds for every \<open>fl_mul\<close> and \<open>fl_sqrt\<close>. The call that asks for values
  only returns this array, sorted.
\<close>

theorem threshold_singular_values:
  assumes "gramian_eigenpairs ext A k ncv tol which v0 maxiter solver g = (Inr (p, n, m, r), ge)"
    and "length (eigvals r) = nat k"
    and "lower (dtype_char (dtype (eigvec r))) = t" and "t = ''f'' \<or> t = ''d''"
  shows "\<exists>th. threshold ext r = Inr th \<and>
     (let ev = map (\<lambda>z. max (Re z) 0) (eigvals r) in
        cutoff th = fl_mul ext (if t = ''f'' then fl_mul ext 1000 (1 / 2 ^ 23)
                                else fl_mul ext 1000000 (1 / 2 ^ 52)) (Max (set ev))
      \<and> above_cutoff th = map (\<lambda>x. cutoff th < x) ev
      \<and> nlarge th = length (filter (\<lambda>x. cutoff th < x) ev)
      \<and> length (svals th) = nat k
      \<and> take (nlarge th) (svals th) = map (fl_sqrt ext) (filter (\<lambda>x. cutoff th < x) ev)
      \<and> drop (nlarge th) (svals th) = replicate (nat k - nlarge th) 0)
     \<and> svds ext A k ncv tol which v0 maxiter (PyBool False) solver g
         = (Inr (Values (np_sort (svals th))), ge)"
proof -
  from gramian_eigenpairs_InrD[OF assms(1)] have k: "0 < k" by blast
  with assms(2) have ne: "eigvals r \<noteq> []" by auto
  define c :: real where "c = (if t = ''f'' then fl_mul ext 1000 (1 / 2 ^ 23)
                                else fl_mul ext 1000000 (1 / 2 ^ 52))"
  have co: "cond_of ext (eigvec r) = Inr c"
    using assms(3,4) unfolding c_def cond_of_cases
    by (cases "dtype (eigvec r)") (auto simp: lower_def lower_char_def)
  note th = threshold_Inr[OF ne co]
  have le: "length (filter (\<lambda>x. fl_mul ext c (Max (set (clamp (eigvals r)))) < x) (clamp (eigvals r)))
              \<le> length (eigvals r)"
    using length_filter_le[of _ "clamp (eigvals r)"] by (simp add: clamp_def)
  show ?thesis
    apply (rule exI, rule conjI, rule th)
    using le assms(1,2)
    apply (simp add: Let_def c_def[symmetric] clamp_def svds_def finish_def th)
    done
qed

theorem threshold_singular_values_witness:
  "\<exists>th. threshold (fixed_solvers (Inr rank_one_pairs)) rank_one_pairs = Inr th
     \<and> cutoff th = 1000000 * (1 / 2 ^ 52) * 4
     \<and> above_cutoff th = [False, True]
     \<and> nlarge th = 1
     \<and> svals th = [2, 0]
     \<and> svds (fixed_solvers (Inr rank_one_pairs)) (Array rank_one_matrix) 2 None 0 ''LM'' None None
          (PyBool False) None [] = (Inr (Values [0, 2]), [])"
proof -
  let ?ext = "fixed_solvers (Inr rank_one_pairs)"
  obtain p where h1: "gramian_eigenpairs ?ext (Array rank_one_matrix)
                        2 None 0 ''LM'' None None None [] = (Inr (p, 4, 3, rank_one_pairs), [])"
    by (simp add: eval_defs)
  have h2: "length (eigvals rank_one_pairs) = nat 2"
    by (simp add: rank_one_pairs_def)
  have h3: "lower (dtype_char (dtype (eigvec rank_one_pairs))) = ''d''"
    by (simp add: rank_one_pairs_def lower_def lower_char_def)
  have m: "fl_mul ?ext = (*)" and q: "fl_sqrt ?ext = sqrt"
    by (simp_all add: fixed_solvers_def)
  from threshold_singular_values[OF h1 h2 h3]
  obtain th where th: "threshold ?ext rank_one_pairs = Inr th"
    and c: "cutoff th = 1000000 * (1 / 2 ^ 52) * Max (set (map (\<lambda>z. max (Re z) 0) (eigvals rank_one_pairs)))"
    and a: "above_cutoff th = map (\<lambda>x. cutoff th < x) (map (\<lambda>z. max (Re z) 0) (eigvals rank_one_pairs))"
    and n: "nlarge th = length (filter (\<lambda>x. cutoff th < x) (map (\<lambda>z. max (Re z) 0) (eigvals rank_one_pairs)))"
    and t: "take (nlarge th) (svals th) = map sqrt (filter (\<lambda>x. cutoff th < x) (map (\<lambda>z. max (Re z) 0) (eigvals rank_one_pairs)))"
    and d: "drop (nlarge th) (svals th) = replicate (nat 2 - nlarge th) 0"
    and s: "svds ?ext (Array rank_one_matrix) 2 None 0 ''LM'' None None
          (PyBool False) None [] = (Inr (Values (np_sort (svals th))), [])"
    by (auto simp: Let_def m q)
  have c4: "cutoff th = 1000000 * (1 / 2 ^ 52) * 4"
    using c by (simp add: rank_one_pairs_def)
  have a2: "above_cutoff th = [False, True]"
    using a by (simp add: c4 rank_one_pairs_def)
  have n1: "nlarge th = 1"
    using n by (simp add: c4 rank_one_pairs_def)
  have "svals th = take (nlarge th) (svals th) @ drop (nlarge th) (svals th)"
    by simp
  also have "\<dots> = [2, 0]"
    unfolding t d by (simp add: c4 n1 rank_one_pairs_def)
  finally have sv: "svals th = [2, 0]" .
  from s have "svds ?ext (Array rank_one_matrix) 2 None 0 ''LM'' None
      None (PyBool False) None [] = (Inr (Values [0, 2]), [])"
    by (simp add: sv np_sort_def)
  with th c4 a2 n1 sv show ?thesis by blast
qed

section \<open>The values-only short circuit\<close>

text \<open>
  Claim C5. When \<open>return_singular_vectors\<close> is false, \<open>svds\<close> returns the sorted array of
  singular values right after the cutoff stage: the result is the sorted array \<open>s\<close> of
  line 218, as long as the eigenvalues, no draw is made and the state of the random
  sources is the one the eigensolver leaves. This array is the singular value component
  of the call that asks for both sides of vectors on the same inputs: whatever the global
  generator of the values-only call is, and in whatever state it is called, as long as
  the eigensolver returns what it returned to the call with vectors (as it does in the
  same state).
\<close>

theorem values_only_short_circuit:
  assumes "\<not> truthy rsv"
  shows "(gramian_eigenpairs ext A k ncv tol which v0 maxiter solver g = (Inr (p, n, m, r), ge)
            \<and> threshold ext r = Inr th
          \<longrightarrow> svds ext A k ncv tol which v0 maxiter rsv solver g = (Inr (Values (np_sort (svals th))), ge)
              \<and> sorted (np_sort (svals th)) \<and> length (np_sort (svals th)) = length (eigvals r))
       \<and> (svds ext A k ncv tol which v0 maxiter (PyBool True) solver g = (Inr (Triplet u s vh), g1)
          \<longrightarrow> (\<forall>rnd g'. fst (gramian_eigenpairs ext A k ncv tol which v0 maxiter solver g')
                           = fst (gramian_eigenpairs ext A k ncv tol which v0 maxiter solver g)
                 \<longrightarrow> svds (ext\<lparr>randn := rnd\<rparr>) A k ncv tol which v0 maxiter rsv solver g'
                       = (Inr (Values s),
                          snd (gramian_eigenpairs ext A k ncv tol which v0 maxiter solver g'))))"
proof (intro conjI impI allI)
  assume h: "gramian_eigenpairs ext A k ncv tol which v0 maxiter solver g = (Inr (p, n, m, r), ge)
            \<and> threshold ext r = Inr th"
  then have "svds ext A k ncv tol which v0 maxiter rsv solver g = finish ext p n m k rsv r ge"
    by (simp add: svds_def)
  with h assms show "svds ext A k ncv tol which v0 maxiter rsv solver g
       = (Inr (Values (np_sort (svals th))), ge)"
    by (simp add: finish_values)
  show "sorted (np_sort (svals th))" by simp
  from h threshold_InrD[of ext r th] show "length (np_sort (svals th)) = length (eigvals r)" by simp
next
  fix rnd g'
  assume h: "svds ext A k ncv tol which v0 maxiter (PyBool True) solver g = (Inr (Triplet u s vh), g1)"
  assume e: "fst (gramian_eigenpairs ext A k ncv tol which v0 maxiter solver g')
               = fst (gramian_eigenpairs ext A k ncv tol which v0 maxiter solver g)"
  from svds_InrD[OF h] obtain p n m r ge where
    ge: "gramian_eigenpairs ext A k ncv tol which v0 maxiter solver g = (Inr (p, n, m, r), ge)"
    and fin: "finish ext p n m k (PyBool True) r ge = (Inr (Triplet u s vh), g1)" by blast
  from finish_InrD[OF fin] obtain th u0 vh0 where th: "threshold ext r = Inr th"
    and st: "sort_triplets (tie_rank ext) u0 (svals th) vh0 = Inr (Triplet u s vh)" by auto
  from sort_triplets_Inr_values[OF st] have s: "s = np_sort (svals th)" by auto
  define ge' where "ge' = snd (gramian_eigenpairs ext A k ncv tol which v0 maxiter solver g')"
  from e ge have "gramian_eigenpairs ext A k ncv tol which v0 maxiter solver g' = (Inr (p, n, m, r), ge')"
    unfolding ge'_def by (cases "gramian_eigenpairs ext A k ncv tol which v0 maxiter solver g'") simp
  then have "gramian_eigenpairs (ext\<lparr>randn := rnd\<rparr>) A k ncv tol which v0 maxiter solver g'
      = (Inr (p, n, m, r), ge')"
    by (simp only: gramian_eigenpairs_randn)
  then have "svds (ext\<lparr>randn := rnd\<rparr>) A k ncv tol which v0 maxiter rsv solver g'
      = finish (ext\<lparr>randn := rnd\<rparr>) p n m k rsv r ge'"
    by (rule svds_Inr)
  moreover have "threshold (ext\<lparr>randn := rnd\<rparr>) r = threshold ext r"
    by (rule threshold_randn)
  ultimately show "svds (ext\<lparr>randn := rnd\<rparr>) A k ncv tol which v0 maxiter rsv solver g'
                       = (Inr (Values s),
                          snd (gramian_eigenpairs ext A k ncv tol which v0 maxiter solver g'))"
    using th assms s by (simp add: finish_values ge'_def)
qed

theorem values_only_short_circuit_witness:
  "svds (fixed_solvers (Inr rank_one_pairs)) (Array rank_one_matrix) 2 None 0 ''LM'' None None
        (PyBool False) None [3, 2, 0, 0, 5, 0, 2] = (Inr (Values [0, 2]), [3, 2, 0, 0, 5, 0, 2])"
proof -
  let ?ext = "fixed_solvers (Inr rank_one_pairs)"
  have f: "\<not> truthy (PyBool False)" by simp
  have e: "?ext\<lparr>randn := list_randn\<rparr> = ?ext"
    by (simp add: fixed_solvers_def)
  have st: "snd (gramian_eigenpairs ?ext (Array rank_one_matrix) 2 None 0 ''LM'' None None None
                   [3, 2, 0, 0, 5, 0, 2]) = [3, 2, 0, 0, 5, 0, 2]"
    by (simp add: eval_defs)
  from values_only_short_circuit[OF f, THEN conjunct2, rule_format, OF rank_one_full_call refl,
        of list_randn]
  show ?thesis by (simp only: e st)
qed

section \<open>The order of the result\<close>

text \<open>
  Claim C4. When the eigensolver has returned \<open>k\<close> eigenvalues and \<open>svds\<close> returns, the
  singular values it returns are \<open>k\<close> in number and in ascending order, and non-negative
  as long as the square root of NumPy is not negative. When it returns vectors,
  \<open>indexes_sorted\<close> is a permutation of the indices below \<open>k\<close> that sorts the array \<open>s\<close> of
  line 218, whichever way \<open>np.argsort\<close> orders equal values; entry \<open>j\<close> of the values,
  column \<open>j\<close> of \<open>u\<close> and row \<open>j\<close> of \<open>vh\<close> are entry, column and row \<open>indexes_sorted[j]\<close>
  of the arrays before the sort, which have \<open>k\<close> entries, columns and rows; a side that is
  \<open>None\<close> before the sort stays \<open>None\<close>.
\<close>

theorem svds_sorted_triplets:
  assumes ge: "gramian_eigenpairs ext A k ncv tol which v0 maxiter solver g = (Inr (p, n, m, r), ge)"
    and len: "length (eigvals r) = nat k"
    and res: "svds ext A k ncv tol which v0 maxiter rsv solver g = (Inr res, g1)"
    and root: "\<forall>x. 0 \<le> x \<longrightarrow> 0 \<le> fl_sqrt ext x"
  shows "\<exists>th. threshold ext r = Inr th \<and>
    (case res of
       Values s \<Rightarrow> length s = nat k \<and> sorted s \<and> (\<forall>x\<in>set s. 0 \<le> x)
     | Triplet u s vh \<Rightarrow>
         length s = nat k \<and> sorted s \<and> (\<forall>x\<in>set s. 0 \<le> x) \<and>
         (\<exists>ularge vhlarge u0 vh0 idx.
            large_vectors p n m rsv (eigvec r) (above_cutoff th) (slarge th) = Inr (ularge, vhlarge) \<and>
            augment_sides (randn ext) ularge vhlarge (nat (k - int (nlarge th))) ge = (u0, vh0, g1) \<and>
            idx = argsort (tie_rank ext) (svals th) \<and>
            distinct idx \<and> set idx = {0..<nat k} \<and> sorted (map (\<lambda>i. svals th ! i) idx) \<and>
            (\<forall>j<nat k. s ! j = svals th ! (idx ! j)) \<and>
            (case u of None \<Rightarrow> u0 = None
             | Some U \<Rightarrow> \<exists>U0. u0 = Some U0 \<and> ncols U0 = nat k \<and> ncols U = nat k
                          \<and> nrows U = nrows U0
                          \<and> (\<forall>j<nat k. cols U ! j = cols U0 ! (idx ! j))) \<and>
            (case vh of None \<Rightarrow> vh0 = None
             | Some V \<Rightarrow> \<exists>V0. vh0 = Some V0 \<and> nrows V0 = nat k \<and> nrows V = nat k
                          \<and> ncols V = ncols V0
                          \<and> (\<forall>j<nat k. row V j = row V0 (idx ! j)))))"
proof -
  from res ge have fin: "finish ext p n m k rsv r ge = (Inr res, g1)"
    by (simp add: svds_def)
  from finish_InrD[OF fin] obtain th where th: "threshold ext r = Inr th"
    and alt: "if \<not> truthy rsv then res = Values (np_sort (svals th)) \<and> g1 = ge
      else \<exists>ularge vhlarge u0 vh0.
             large_vectors p n m rsv (eigvec r) (above_cutoff th) (slarge th) = Inr (ularge, vhlarge)
           \<and> augment_sides (randn ext) ularge vhlarge (nat (k - int (nlarge th))) ge = (u0, vh0, g1)
           \<and> sort_triplets (tie_rank ext) u0 (svals th) vh0 = Inr res"
    by blast
  note td = threshold_InrD[OF th]
  from td len have ls: "length (svals th) = nat k" by simp
  from td root have nn: "\<forall>x\<in>set (svals th). 0 \<le> x" by blast
  from td len have nl: "nlarge th \<le> nat k" by simp
  from td have lsl: "length (slarge th) = nlarge th"
    and lf: "length (filter id (above_cutoff th)) = length (slarge th)" by simp_all
  define idx where "idx = argsort (tie_rank ext) (svals th)"
  have li: "length idx = nat k" by (simp add: idx_def ls)
  have srt: "sorted (map (\<lambda>i. svals th ! i) idx)"
    unfolding idx_def map_nth_argsort by simp
  have nth_s: "\<forall>j<nat k. np_sort (svals th) ! j = svals th ! (idx ! j)"
    unfolding idx_def map_nth_argsort[symmetric, of "svals th" "tie_rank ext"]
    using li by (simp add: idx_def)
  have vals: "length (np_sort (svals th)) = nat k \<and> sorted (np_sort (svals th))
              \<and> (\<forall>x\<in>set (np_sort (svals th)). 0 \<le> x)"
    using ls nn by simp
  show ?thesis
  proof (cases "truthy rsv")
    case False
    with alt vals th show ?thesis by auto
  next
    case True
    with alt obtain ularge vhlarge u0 vh0 where
      lv: "large_vectors p n m rsv (eigvec r) (above_cutoff th) (slarge th) = Inr (ularge, vhlarge)"
      and au: "augment_sides (randn ext) ularge vhlarge (nat (k - int (nlarge th))) ge = (u0, vh0, g1)"
      and st: "sort_triplets (tie_rank ext) u0 (svals th) vh0 = Inr res" by auto
    from sort_triplets_InrD[OF st] obtain u vh where
      r: "res = Triplet u (np_sort (svals th)) vh"
      and uu: "case u0 of None \<Rightarrow> u = None
              | Some U0 \<Rightarrow> \<exists>U. u = Some U \<and> take_cols U0 idx = Inr U"
      and vv: "case vh0 of None \<Rightarrow> vh = None
              | Some V0 \<Rightarrow> \<exists>V. vh = Some V \<and> take_rows V0 idx = Inr V"
      unfolding idx_def by blast
    have cnt: "nlarge th + nat (k - int (nlarge th)) = nat k" using nl by simp
    note lvd = large_vectors_InrD[OF lv lf]
    note aud = augment_sides_D[OF au]
    have u0c: "ncols U0 = nat k" if "u0 = Some U0" for U0
    proof -
      from that aud obtain x where x: "ularge = Some x" "ncols U0 = ncols x + nat (k - int (nlarge th))"
        by (cases ularge) auto
      with lvd have "ncols x = length (slarge th)" by (cases "n > m") auto
      with x lsl cnt show ?thesis by simp
    qed
    have v0r: "nrows V0 = nat k" if "vh0 = Some V0" for V0
    proof -
      from that aud obtain x where x: "vhlarge = Some x" "nrows V0 = nrows x + nat (k - int (nlarge th))"
        by (cases vhlarge) auto
      with lvd have "nrows x = length (slarge th)" by (cases "n > m") auto
      with x lsl cnt show ?thesis by simp
    qed
    have pu: "case u of None \<Rightarrow> u0 = None
             | Some U \<Rightarrow> \<exists>U0. u0 = Some U0 \<and> ncols U0 = nat k \<and> ncols U = nat k
                          \<and> nrows U = nrows U0
                          \<and> (\<forall>j<nat k. cols U ! j = cols U0 ! (idx ! j))"
    proof (cases u0)
      case None
      with uu show ?thesis by simp
    next
      case (Some U0)
      with uu obtain U where U: "u = Some U" "take_cols U0 idx = Inr U" by auto
      from take_cols_InrD[OF U(2)] li u0c[OF Some] Some U(1) show ?thesis by simp
    qed
    have pv: "case vh of None \<Rightarrow> vh0 = None
             | Some V \<Rightarrow> \<exists>V0. vh0 = Some V0 \<and> nrows V0 = nat k \<and> nrows V = nat k
                          \<and> ncols V = ncols V0
                          \<and> (\<forall>j<nat k. row V j = row V0 (idx ! j))"
    proof (cases vh0)
      case None
      with vv show ?thesis by simp
    next
      case (Some V0)
      with vv obtain V where V: "vh = Some V" "take_rows V0 idx = Inr V" by auto
      from take_rows_InrD[OF V(2)] li v0r[OF Some] Some V(1) show ?thesis by simp
    qed
    have perm: "distinct idx \<and> set idx = {0..<nat k}" by (simp add: idx_def ls)
    have ex: "\<exists>ularge vhlarge u0 vh0 idx'.
            large_vectors p n m rsv (eigvec r) (above_cutoff th) (slarge th) = Inr (ularge, vhlarge) \<and>
            augment_sides (randn ext) ularge vhlarge (nat (k - int (nlarge th))) ge = (u0, vh0, g1) \<and>
            idx' = argsort (tie_rank ext) (svals th) \<and>
            distinct idx' \<and> set idx' = {0..<nat k} \<and> sorted (map (\<lambda>i. svals th ! i) idx') \<and>
            (\<forall>j<nat k. np_sort (svals th) ! j = svals th ! (idx' ! j)) \<and>
            (case u of None \<Rightarrow> u0 = None
             | Some U \<Rightarrow> \<exists>U0. u0 = Some U0 \<and> ncols U0 = nat k \<and> ncols U = nat k
                          \<and> nrows U = nrows U0
                          \<and> (\<forall>j<nat k. cols U ! j = cols U0 ! (idx' ! j))) \<and>
            (case vh of None \<Rightarrow> vh0 = None
             | Some V \<Rightarrow> \<exists>V0. vh0 = Some V0 \<and> nrows V0 = nat k \<and> nrows V = nat k
                          \<and> ncols V = ncols V0
                          \<and> (\<forall>j<nat k. row V j = row V0 (idx' ! j)))"
      apply (rule exI[of _ ularge], rule exI[of _ vhlarge], rule exI[of _ u0], rule exI[of _ vh0],
             rule exI[of _ idx])
      using lv au perm srt nth_s pu pv idx_def apply (intro conjI)
               apply (assumption | simp)+
      done
    show ?thesis
      apply (rule exI[of _ th])
      apply (rule conjI[OF th])
      apply (simp only: r svds_result.case)
      apply (intro conjI)
         apply (simp add: ls)
        apply simp
       apply (simp add: nn)
      apply (rule ex)
      done
  qed
qed


theorem svds_sorted_triplets_witness:
  "\<exists>th (U0 :: matrix) (V0 :: matrix) idx.
       threshold (fixed_solvers (Inr rank_one_pairs)) rank_one_pairs = Inr th
     \<and> length [0, 2 :: real] = nat 2 \<and> sorted [0, 2 :: real] \<and> (\<forall>x\<in>set [0, 2 :: real]. 0 \<le> x)
     \<and> distinct idx \<and> set idx = {0..<nat 2} \<and> sorted (map (\<lambda>i. svals th ! i) idx)
     \<and> (\<forall>j<nat 2. [0, 2] ! j = svals th ! (idx ! j))
     \<and> ncols U0 = nat 2 \<and> nrows V0 = nat 2
     \<and> (\<forall>j<nat 2. [[0, 1, 0, 0], [1, 0, 0, 0]] ! j = cols U0 ! (idx ! j))
     \<and> (\<forall>j<nat 2. row \<lparr>nrows = 2, ncols = 3, dtype = Float64, cols = [[0, 1], [0, 0], [1, 0]]\<rparr> j
                    = row V0 (idx ! j))"
proof -
  let ?ext = "fixed_solvers (Inr rank_one_pairs)"
  obtain p where h1: "gramian_eigenpairs ?ext (Array rank_one_matrix)
        2 None 0 ''LM'' None None None [3, 2, 0, 0, 5, 0, 2]
          = (Inr (p, 4, 3, rank_one_pairs), [3, 2, 0, 0, 5, 0, 2])"
    by (simp add: eval_defs)
  have h2: "length (eigvals rank_one_pairs) = nat 2"
    by (simp add: rank_one_pairs_def)
  have h3: "\<forall>x. 0 \<le> x \<longrightarrow> 0 \<le> fl_sqrt ?ext x"
    by (simp add: fixed_solvers_def)
  from svds_sorted_triplets[OF h1 h2 rank_one_full_call h3]
  show ?thesis
    apply (simp only: svds_result.case option.case matrix.simps)
    apply (elim exE conjE)
    apply (intro exI conjI)
               apply assumption+
    done
qed

section \<open>The sides that are returned\<close>

text \<open>
  Claim C1, as stated, fails: for an operator with more rows than columns, the call with
  output mode \<open>"u"\<close> returns the right singular vectors as well (line 225 computes
  \<open>vhlarge\<close> whatever the mode).
\<close>

theorem left_only_mode_counterexample:
  "svds (fixed_solvers (Inr rank_one_pairs)) (Array rank_one_matrix) 2 None 0 ''LM'' None None
          (PyStr ''u'') None [3, 2, 0, 0, 5, 0, 2] =
   (Inr (Triplet
      (Some \<lparr>nrows = 4, ncols = 2, dtype = Float64, cols = [[0, 1, 0, 0], [1, 0, 0, 0]]\<rparr>)
      [0, 2]
      (Some \<lparr>nrows = 2, ncols = 3, dtype = Float64, cols = [[0, 1], [0, 0], [1, 0]]\<rparr>)), [])"
  by (simp add: eval_defs vec_defs upt_rec numeral_eq_Suc)


text \<open>
  Claim C1, amended. A call that returns with a falsy \<open>return_singular_vectors\<close> returns
  the values alone. Otherwise, for an operator with more rows than columns the right
  singular vectors are always returned and the left ones are \<open>None\<close> exactly in mode
  \<open>"vh"\<close>; for an operator with fewer rows than columns the left singular vectors are
  always returned and the right ones are \<open>None\<close> exactly in mode \<open>"u"\<close>.
\<close>

theorem requested_sides:
  assumes ge: "gramian_eigenpairs ext A k ncv tol which v0 maxiter solver g = (Inr (p, n, m, r), ge)"
    and res: "svds ext A k ncv tol which v0 maxiter rsv solver g = (Inr res, g1)"
  shows "(\<not> truthy rsv \<longrightarrow> (\<exists>s. res = Values s))
       \<and> (truthy rsv \<longrightarrow> (\<exists>u s vh. res = Triplet u s vh
             \<and> (n > m \<longrightarrow> vh \<noteq> None \<and> (u = None \<longleftrightarrow> rsv = PyStr ''vh''))
             \<and> (n < m \<longrightarrow> u \<noteq> None \<and> (vh = None \<longleftrightarrow> rsv = PyStr ''u''))))"
proof -
  from res ge have fin: "finish ext p n m k rsv r ge = (Inr res, g1)"
    by (simp add: svds_def)
  from finish_InrD[OF fin] obtain th where th: "threshold ext r = Inr th"
    and alt: "if \<not> truthy rsv then res = Values (np_sort (svals th)) \<and> g1 = ge
      else \<exists>ularge vhlarge u0 vh0.
             large_vectors p n m rsv (eigvec r) (above_cutoff th) (slarge th) = Inr (ularge, vhlarge)
           \<and> augment_sides (randn ext) ularge vhlarge (nat (k - int (nlarge th))) ge = (u0, vh0, g1)
           \<and> sort_triplets (tie_rank ext) u0 (svals th) vh0 = Inr res"
    by blast
  show ?thesis
  proof (cases "truthy rsv")
    case False
    with alt show ?thesis by simp
  next
    case True
    with alt obtain ularge vhlarge u0 vh0 where
      lv: "large_vectors p n m rsv (eigvec r) (above_cutoff th) (slarge th) = Inr (ularge, vhlarge)"
      and au: "augment_sides (randn ext) ularge vhlarge (nat (k - int (nlarge th))) ge = (u0, vh0, g1)"
      and st: "sort_triplets (tie_rank ext) u0 (svals th) vh0 = Inr res" by auto
    from threshold_InrD[OF th] have lf: "length (filter id (above_cutoff th)) = length (slarge th)"
      by simp
    from sort_triplets_InrD[OF st] obtain u vh where
      r: "res = Triplet u (np_sort (svals th)) vh"
      and uu: "u = None \<longleftrightarrow> u0 = None" and vv: "vh = None \<longleftrightarrow> vh0 = None"
      by (cases u0; cases vh0) auto
    from augment_sides_D[OF au] have a: "u0 = None \<longleftrightarrow> ularge = None" "vh0 = None \<longleftrightarrow> vhlarge = None"
      by (cases ularge; cases vhlarge; auto)+
    from large_vectors_InrD[OF lv lf] have
      "n > m \<longrightarrow> vhlarge \<noteq> None \<and> (ularge = None \<longleftrightarrow> rsv = PyStr ''vh'')"
      "n < m \<longrightarrow> ularge \<noteq> None \<and> (vhlarge = None \<longleftrightarrow> rsv = PyStr ''u'')"
      by auto
    with True r uu vv a show ?thesis by auto
  qed
qed

theorem requested_sides_witness:
  "(\<exists>s vh. fst (svds (fixed_solvers (Inr rank_one_pairs)) (Array rank_one_matrix) 2 None 0 ''LM''
            None None (PyStr ''vh'') None [3, 2, 0, 0, 5, 0, 2]) = Inr (Triplet None s (Some vh)))
   \<and> (\<exists>u s. fst (svds (fixed_solvers (Inr rank_one_pairs)) (Array wide_matrix) 2 None 0 ''LM''
            None None (PyStr ''u'') None [3, 2, 0, 0, 5, 0, 2]) = Inr (Triplet (Some u) s None))"
proof -
  obtain p where h1: "gramian_eigenpairs (fixed_solvers (Inr rank_one_pairs)) (Array rank_one_matrix)
        2 None 0 ''LM'' None None None [3, 2, 0, 0, 5, 0, 2]
          = (Inr (p, 4, 3, rank_one_pairs), [3, 2, 0, 0, 5, 0, 2])"
    by (simp add: eval_defs)
  obtain q where h2: "gramian_eigenpairs (fixed_solvers (Inr rank_one_pairs)) (Array wide_matrix)
        2 None 0 ''LM'' None None None [3, 2, 0, 0, 5, 0, 2]
          = (Inr (q, 3, 4, rank_one_pairs), [3, 2, 0, 0, 5, 0, 2])"
    by (simp add: eval_defs)
  from requested_sides[OF h1 rank_one_right_only_call] requested_sides[OF h2 wide_left_only_call]
  show ?thesis
    by (simp add: rank_one_right_only_call wide_left_only_call)
qed

section \<open>The Gram operator\<close>

text \<open>
  Claim C3. For a \<open>LinearOperator\<close> of shape \<open>(n, m)\<close> with \<open>n > m\<close> the primitives \<open>X\<close> are
  \<open>matvec\<close> and \<open>matmat\<close> and the primitives \<open>XH\<close> are \<open>rmatvec\<close> and \<open>rmatmat\<close>; otherwise
  the roles are swapped. For an array the forward primitives are \<open>A.dot\<close> and the adjoint
  ones are \<open>_herm(A).dot\<close>, where \<open>_herm(A)\<close> is the conjugate transpose. The operator
  \<open>XH_X\<close> given to the eigensolver has shape \<open>(min(n, m), min(n, m))\<close>, its \<open>matvec\<close> is
  \<open>XH_dot(X_dot(x))\<close> and its \<open>matmat\<close> is \<open>XH_mat(X_matmat(x))\<close>: it holds the two
  compositions, and no product matrix.
\<close>

theorem gram_operator_construction:
  "(select_primitives (LinearOperator L) n m = Inr (p, dl) \<longrightarrow>
      (n > m \<longrightarrow> X_dot p = matvec L \<and> X_matmat p = matmat L
                 \<and> XH_dot p = rmatvec L \<and> XH_mat p = rmatmat L)
    \<and> (\<not> n > m \<longrightarrow> X_dot p = rmatvec L \<and> X_matmat p = rmatmat L
                 \<and> XH_dot p = matvec L \<and> XH_mat p = matmat L))
   \<and> (select_primitives (Array M) n m = Inr (q, dl) \<longrightarrow>
      (n > m \<longrightarrow> X_dot q = dot_vec M \<and> X_matmat q = dot_mat M
                 \<and> XH_dot q = dot_vec (herm M) \<and> XH_mat q = dot_mat (herm M))
    \<and> (\<not> n > m \<longrightarrow> X_dot q = dot_vec (herm M) \<and> X_matmat q = dot_mat (herm M)
                 \<and> XH_dot q = dot_vec M \<and> XH_mat q = dot_mat M))
   \<and> (wf_matrix M \<and> i < nrows M \<and> j < ncols M \<longrightarrow>
        nrows (herm M) = ncols M \<and> ncols (herm M) = nrows M
        \<and> cols (herm M) ! i ! j = cnj (cols M ! j ! i))
   \<and> shape (gram_operator p' d (n, m)) = (min n m, min n m)
   \<and> matvec (gram_operator p' d (n, m)) x = bindE (X_dot p' x) (XH_dot p')
   \<and> matmat (gram_operator p' d (n, m)) y = bindE (X_matmat p' y) (XH_mat p')
   \<and> (gramian_eigenpairs ext A k ncv tol which v0 maxiter solver g = (Inr (p', n, m, r), ge) \<longrightarrow>
        (\<exists>largest dl d. shape_of A = (n, m) \<and> select_primitives A n m = Inr (p', dl)
            \<and> solve ext (gram_operator p' d (n, m)) (min n m) k ncv tol which largest v0 maxiter
                 solver g = (Inr r, ge)))"
proof -
  have 1: "select_primitives (LinearOperator L) n m = Inr (p, dl) \<longrightarrow>
      (n > m \<longrightarrow> X_dot p = matvec L \<and> X_matmat p = matmat L
                 \<and> XH_dot p = rmatvec L \<and> XH_mat p = rmatmat L)
    \<and> (\<not> n > m \<longrightarrow> X_dot p = rmatvec L \<and> X_matmat p = rmatmat L
                 \<and> XH_dot p = matvec L \<and> XH_mat p = matmat L)"
    by (auto simp: bindE_Inr_iff split: if_splits)
  have 2: "select_primitives (Array M) n m = Inr (q, dl) \<longrightarrow>
      (n > m \<longrightarrow> X_dot q = dot_vec M \<and> X_matmat q = dot_mat M
                 \<and> XH_dot q = dot_vec (herm M) \<and> XH_mat q = dot_mat (herm M))
    \<and> (\<not> n > m \<longrightarrow> X_dot q = dot_vec (herm M) \<and> X_matmat q = dot_mat (herm M)
                 \<and> XH_dot q = dot_vec M \<and> XH_mat q = dot_mat M)"
    by (auto split: if_splits)
  have 3: "wf_matrix M \<and> i < nrows M \<and> j < ncols M \<longrightarrow>
        nrows (herm M) = ncols M \<and> ncols (herm M) = nrows M
        \<and> cols (herm M) ! i ! j = cnj (cols M ! j ! i)"
    by (simp add: herm_entry)
  have 4: "shape (gram_operator p' d (n, m)) = (min n m, min n m)
   \<and> matvec (gram_operator p' d (n, m)) x = bindE (X_dot p' x) (XH_dot p')
   \<and> matmat (gram_operator p' d (n, m)) y = bindE (X_matmat p' y) (XH_mat p')"
    by (simp add: gram_operator_def matvec_XH_X_def matmat_XH_X_def)
  have 5: "gramian_eigenpairs ext A k ncv tol which v0 maxiter solver g = (Inr (p', n, m, r), ge) \<longrightarrow>
        (\<exists>largest dl d. shape_of A = (n, m) \<and> select_primitives A n m = Inr (p', dl)
            \<and> solve ext (gram_operator p' d (n, m)) (min n m) k ncv tol which largest v0 maxiter
                 solver g = (Inr r, ge))"
    using gramian_eigenpairs_InrD[of ext A k ncv tol which v0 maxiter solver g p' n m r ge] by blast
  from 1 2 3 4 5 show ?thesis by blast
qed


theorem gram_operator_construction_witness:
  "(\<exists>p. select_primitives (LinearOperator (as_operator tall_matrix (Present (Some Float64)))) 3 2
           = Inr (p, None)
        \<and> X_dot p = dot_vec tall_matrix \<and> XH_mat p = dot_mat (herm tall_matrix))
   \<and> (\<exists>q. select_primitives (Array wide_matrix) 3 4 = Inr (q, None)
        \<and> X_dot q = dot_vec (herm wide_matrix) \<and> XH_mat q = dot_mat wide_matrix)
   \<and> cols (herm tall_matrix) ! 0 ! 0 = cnj (cols tall_matrix ! 0 ! 0)
   \<and> (\<exists>q. gramian_eigenpairs (fixed_solvers (Inr (tall_top Float64))) (Array tall_matrix) 1 None 0
             ''LM'' None None None [] = (Inr (q, 3, 2, tall_top Float64), [])
        \<and> shape (gram_operator q (Some Float64) (3, 2)) = (2, 2)
        \<and> matvec (gram_operator q (Some Float64) (3, 2)) \<lparr>vdtype = Float64, elems = [1, 1]\<rparr>
            = Inr \<lparr>vdtype = Float64, elems = [4, 1]\<rparr>)"
proof -
  let ?L = "as_operator tall_matrix (Present (Some Float64))"
  obtain p where p: "select_primitives (LinearOperator ?L) 3 2 = Inr (p, None)"
    by simp
  obtain q where q: "select_primitives (Array wide_matrix) 3 4 = Inr (q, None)"
    by simp
  obtain q' where q': "gramian_eigenpairs (fixed_solvers (Inr (tall_top Float64))) (Array tall_matrix)
       1 None 0 ''LM'' None None None [] = (Inr (q', 3, 2, tall_top Float64), [])"
    by (simp add: eval_defs)
  have w: "wf_matrix tall_matrix \<and> 0 < nrows tall_matrix \<and> 0 < ncols tall_matrix"
    by (simp add: wf_matrix_def tall_matrix_def)
  note tL = gram_operator_construction[where L = ?L and n = 3 and m = 2 and p = p and dl = None, THEN conjunct1]
  note tM = gram_operator_construction[where M = wide_matrix and n = 3 and m = 4 and q = q
      and dl = None, THEN conjunct2, THEN conjunct1]
  note tH = gram_operator_construction[where M = tall_matrix and i = 0 and j = 0,
      THEN conjunct2, THEN conjunct2, THEN conjunct1]
  note tG = gram_operator_construction[where p' = q' and n = 3 and m = 2 and d = "Some Float64"
      and x = "\<lparr>vdtype = Float64, elems = [1, 1]\<rparr>"
      and ext = "fixed_solvers (Inr (tall_top Float64))" and A = "Array tall_matrix" and k = 1
      and ncv = None and tol = 0 and which = "''LM''" and ?v0.0 = None and maxiter = None
      and solver = None and r = "tall_top Float64" and y = "np_zeros 0 0" and g = "[]"
      and ge = "[]",
      THEN conjunct2, THEN conjunct2, THEN conjunct2]
  from tL p have a: "X_dot p = dot_vec tall_matrix \<and> XH_mat p = dot_mat (herm tall_matrix)"
    by (simp add: as_operator_def)
  from tM q have b: "X_dot q = dot_vec (herm wide_matrix) \<and> XH_mat q = dot_mat wide_matrix"
    by simp
  from tH w have c: "cols (herm tall_matrix) ! 0 ! 0 = cnj (cols tall_matrix ! 0 ! 0)"
    by simp
  from tG q' have sp: "\<exists>dl. select_primitives (Array tall_matrix) 3 2 = Inr (q', dl)"
    and d: "shape (gram_operator q' (Some Float64) (3, 2)) = (2, 2)"
      "matvec (gram_operator q' (Some Float64) (3, 2)) \<lparr>vdtype = Float64, elems = [1, 1]\<rparr>
          = bindE (X_dot q' \<lparr>vdtype = Float64, elems = [1, 1]\<rparr>) (XH_dot q')"
    by auto
  from sp have "X_dot q' = dot_vec tall_matrix \<and> XH_dot q' = dot_vec (herm tall_matrix)"
    by auto
  with d have e: "matvec (gram_operator q' (Some Float64) (3, 2)) \<lparr>vdtype = Float64, elems = [1, 1]\<rparr>
            = Inr \<lparr>vdtype = Float64, elems = [4, 1]\<rparr>"
    by (simp add: dot_vec_def tall_matrix_def herm_def conj_m_def transpose_m_def vadd_def vscale_def
          result_type_def dtype_of_rank_def upt_rec numeral_eq_Suc)
  from p q q' a b c d e show ?thesis by blast
qed

section \<open>The element type of the operator\<close>

text \<open>
  Claim C9 says that the element type is resolved, by a zero product if need be, in both
  orientations, and that the Gram operator gets the resolved type. The code does not do
  that. For a \<open>LinearOperator\<close> without a \<open>dtype\<close> attribute and with more rows than
  columns nothing is resolved (the local variable \<open>dtype\<close> is not assigned); with fewer
  rows it is resolved by the product with a zero vector, to \<open>float64\<close> here, and then not
  used. In both
  orientations line 179 reads \<open>A.dtype\<close> and the call ends with an \<open>AttributeError\<close>,
  whatever the eigensolvers are.
\<close>

theorem dtype_attribute_missing:
  "select_primitives (LinearOperator (as_operator tall_matrix Missing)) 3 2
     = Inr (\<lparr>X_dot = dot_vec tall_matrix, X_matmat = dot_mat tall_matrix,
             XH_dot = dot_vec (herm tall_matrix), XH_mat = dot_mat (herm tall_matrix)\<rparr>, None)
   \<and> svds ext (LinearOperator (as_operator tall_matrix Missing)) 1 None 0 ''LM'' None None
         (PyBool True) None g = (Inl (AttributeError ''dtype''), g)
   \<and> select_primitives (LinearOperator (as_operator wide_matrix Missing)) 3 4
     = Inr (\<lparr>X_dot = dot_vec (herm wide_matrix), X_matmat = dot_mat (herm wide_matrix),
             XH_dot = dot_vec wide_matrix, XH_mat = dot_mat wide_matrix\<rparr>, Some Float64)
   \<and> svds ext (LinearOperator (as_operator wide_matrix Missing)) 2 None 0 ''LM'' None None
         (PyBool True) None g = (Inl (AttributeError ''dtype''), g)"
  by (simp add: as_operator_def svds_def gramian_eigenpairs_def prepare_def check_which_def
        probe_dtype_def operator_dot_def getattr_dtype_def tall_matrix_def wide_matrix_def
        dot_vec_def np_zeros_def np_reshape_col_def result_type_def dtype_of_rank_def)


section \<open>The validation errors\<close>

text \<open>
  Claim C6, as stated, fails: the backend selector is checked only at the dispatch of
  line 199, after the primitives are selected and the Gram operator is built. For a
  \<open>LinearOperator\<close> with \<open>dtype = None\<close> and no more rows than columns, line 163 applies the
  operator to a zero vector before that; when this product raises, the call with an
  unrecognized backend ends with the error of the product.
\<close>

theorem backend_checked_late_counterexample:
  "svds (fixed_solvers (Inr (tall_top Float64))) (LinearOperator raising_operator) 1 None 0 ''LM''
        None None (PyBool True) (Some ''bogus'') [] = (Inl (ExternalError ''matvec''), [])"
  by (simp add: raising_operator_def svds_def gramian_eigenpairs_def prepare_def check_which_def
        probe_dtype_def operator_dot_def np_zeros_def getattr_dtype_def)


text \<open>
  Claim C6, amended. An extremal selector other than \<open>LM\<close> and \<open>SM\<close> raises its error
  whatever the other arguments are; with a valid selector, a count \<open>k \<le> 0\<close> or
  \<open>k \<ge> min(n, m)\<close> raises its error, which depends on the operator through its shape only.
  A backend selector other than \<open>lobpcg\<close>, \<open>arpack\<close> and \<open>None\<close> always ends in an error and
  never in a value, no eigensolver is called and the random sources are left as they
  were: the outcome is the same for any other eigensolvers. With a valid selector and a
  valid count, an error of the selection of the primitives (the product of line 163) or
  of the read of \<open>A.dtype\<close> comes first and is the error of the call; when both succeed,
  the error of the call is the backend error.
\<close>

theorem validation_errors:
  "(which \<noteq> ''LM'' \<and> which \<noteq> ''SM'' \<longrightarrow>
      svds ext A k ncv tol which v0 maxiter rsv solver g
        = (Inl (ValueError ''which must be either LM or SM.''), g))
   \<and> ((which = ''LM'' \<or> which = ''SM'') \<and> shape_of A = (n, m) \<and> (k \<le> 0 \<or> k \<ge> int (min n m)) \<longrightarrow>
      svds ext A k ncv tol which v0 maxiter rsv solver g
        = (Inl (ValueError ''k must be between 1 and min(A.shape), k=%d''), g))
   \<and> (solver \<notin> {Some ''lobpcg'', Some ''arpack'', None} \<longrightarrow>
        (\<exists>e. svds ext A k ncv tol which v0 maxiter rsv solver g = (Inl e, g))
      \<and> svds ext' A k ncv tol which v0 maxiter rsv solver g
          = svds ext A k ncv tol which v0 maxiter rsv solver g
      \<and> ((which = ''LM'' \<or> which = ''SM'') \<and> shape_of A = (n, m) \<and> 0 < k \<and> k < int (min n m) \<longrightarrow>
           (select_primitives A n m = Inl e1 \<longrightarrow>
              svds ext A k ncv tol which v0 maxiter rsv solver g = (Inl e1, g))
         \<and> (select_primitives A n m = Inr (p, dl) \<and> dtype_of A = Inl e2 \<longrightarrow>
              svds ext A k ncv tol which v0 maxiter rsv solver g = (Inl e2, g))
         \<and> (select_primitives A n m = Inr (p, dl) \<and> dtype_of A = Inr d \<longrightarrow>
              svds ext A k ncv tol which v0 maxiter rsv solver g
                = (Inl (ValueError ''solver must be either arpack, or lobpcg.''), g))))"
proof (intro conjI impI)
  assume "which \<noteq> ''LM'' \<and> which \<noteq> ''SM''"
  then show "svds ext A k ncv tol which v0 maxiter rsv solver g
        = (Inl (ValueError ''which must be either LM or SM.''), g)"
    by (simp add: svds_def gramian_eigenpairs_def prepare_def check_which_def)
next
  assume "(which = ''LM'' \<or> which = ''SM'') \<and> shape_of A = (n, m) \<and> (k \<le> 0 \<or> k \<ge> int (min n m))"
  then show "svds ext A k ncv tol which v0 maxiter rsv solver g
        = (Inl (ValueError ''k must be between 1 and min(A.shape), k=%d''), g)"
    by (auto simp: svds_def gramian_eigenpairs_def prepare_def check_which_def)
next
  assume s: "solver \<notin> {Some ''lobpcg'', Some ''arpack'', None}"
  from gramian_eigenpairs_unrecognized_Inl[OF s, of ext A k ncv tol which v0 maxiter g] obtain e where
    "gramian_eigenpairs ext A k ncv tol which v0 maxiter solver g = (Inl e, g)" by blast
  then show "\<exists>e. svds ext A k ncv tol which v0 maxiter rsv solver g = (Inl e, g)"
    by (simp add: svds_def)
next
  assume s: "solver \<notin> {Some ''lobpcg'', Some ''arpack'', None}"
  have "gramian_eigenpairs ext' A k ncv tol which v0 maxiter solver g
        = gramian_eigenpairs ext A k ncv tol which v0 maxiter solver g"
    by (simp only: gramian_eigenpairs_unrecognized[OF s])
  moreover from gramian_eigenpairs_unrecognized_Inl[OF s, of ext A k ncv tol which v0 maxiter g] obtain e where
    "gramian_eigenpairs ext A k ncv tol which v0 maxiter solver g = (Inl e, g)" by blast
  ultimately show "svds ext' A k ncv tol which v0 maxiter rsv solver g
          = svds ext A k ncv tol which v0 maxiter rsv solver g"
    by (simp add: svds_def)
next
  assume s: "solver \<notin> {Some ''lobpcg'', Some ''arpack'', None}"
  assume v: "(which = ''LM'' \<or> which = ''SM'') \<and> shape_of A = (n, m) \<and> 0 < k \<and> k < int (min n m)"
  assume "select_primitives A n m = Inl e1"
  with v show "svds ext A k ncv tol which v0 maxiter rsv solver g = (Inl e1, g)"
    unfolding svds_def gramian_eigenpairs_unrecognized[OF s]
    by (auto simp: prepare_def check_which_def)
next
  assume s: "solver \<notin> {Some ''lobpcg'', Some ''arpack'', None}"
  assume v: "(which = ''LM'' \<or> which = ''SM'') \<and> shape_of A = (n, m) \<and> 0 < k \<and> k < int (min n m)"
  assume "select_primitives A n m = Inr (p, dl) \<and> dtype_of A = Inl e2"
  with v show "svds ext A k ncv tol which v0 maxiter rsv solver g = (Inl e2, g)"
    unfolding svds_def gramian_eigenpairs_unrecognized[OF s]
    by (auto simp: prepare_def check_which_def)
next
  assume s: "solver \<notin> {Some ''lobpcg'', Some ''arpack'', None}"
  assume v: "(which = ''LM'' \<or> which = ''SM'') \<and> shape_of A = (n, m) \<and> 0 < k \<and> k < int (min n m)"
  assume "select_primitives A n m = Inr (p, dl) \<and> dtype_of A = Inr d"
  with v show "svds ext A k ncv tol which v0 maxiter rsv solver g
            = (Inl (ValueError ''solver must be either arpack, or lobpcg.''), g)"
    unfolding svds_def gramian_eigenpairs_unrecognized[OF s]
    by (auto simp: prepare_def check_which_def)
qed

theorem validation_errors_witness:
  "svds (fixed_solvers (Inr (tall_top Float64))) (Array tall_matrix) 1 None 0 ''XX'' None None
      (PyBool True) None [] = (Inl (ValueError ''which must be either LM or SM.''), [])
   \<and> svds (fixed_solvers (Inr (tall_top Float64))) (Array tall_matrix) 2 None 0 ''LM'' None None
      (PyBool True) None [] = (Inl (ValueError ''k must be between 1 and min(A.shape), k=%d''), [])
   \<and> svds (fixed_solvers (Inr (tall_top Float64))) (Array tall_matrix) 1 None 0 ''SM'' None None
      (PyBool True) (Some ''bogus'') []
       = (Inl (ValueError ''solver must be either arpack, or lobpcg.''), [])
   \<and> svds (fixed_solvers (Inl NotImplementedError)) (Array tall_matrix) 1 None 0 ''SM'' None None
      (PyBool True) (Some ''bogus'') []
       = svds (fixed_solvers (Inr (tall_top Float64))) (Array tall_matrix) 1 None 0 ''SM'' None None
      (PyBool True) (Some ''bogus'') []
   \<and> svds (fixed_solvers (Inr (tall_top Float64))) (LinearOperator raising_operator) 1 None 0 ''SM''
      None None (PyBool True) (Some ''bogus'') [] = (Inl (ExternalError ''matvec''), [])
   \<and> svds (fixed_solvers (Inr (tall_top Float64))) (LinearOperator (as_operator tall_matrix Missing))
      1 None 0 ''SM'' None None (PyBool True) (Some ''bogus'') [] = (Inl (AttributeError ''dtype''), [])"
proof -
  let ?ext = "fixed_solvers (Inr (tall_top Float64))"
  let ?R = "LinearOperator raising_operator"
  let ?M = "LinearOperator (as_operator tall_matrix Missing)"
  have a: "''XX'' \<noteq> ''LM'' \<and> ''XX'' \<noteq> ''SM''" by simp
  have b: "(''LM'' = ''LM'' \<or> ''LM'' = ''SM'') \<and> shape_of (Array tall_matrix) = (3, 2)
           \<and> ((2::int) \<le> 0 \<or> 2 \<ge> int (min 3 2))"
    by (simp add: tall_matrix_def)
  have c: "Some ''bogus'' \<notin> {Some ''lobpcg'', Some ''arpack'', None}" by simp
  have v: "(''SM'' = ''LM'' \<or> ''SM'' = ''SM'') \<and> shape_of (Array tall_matrix) = (3, 2)
           \<and> (0::int) < 1 \<and> 1 < int (min 3 2)"
    by (simp add: tall_matrix_def)
  obtain p where d: "select_primitives (Array tall_matrix) 3 2 = Inr (p, None)
           \<and> dtype_of (Array tall_matrix) = Inr (Some Float64)"
    by (simp add: tall_matrix_def)
  have vR: "(''SM'' = ''LM'' \<or> ''SM'' = ''SM'') \<and> shape_of ?R = (2, 3)
           \<and> (0::int) < 1 \<and> 1 < int (min 2 3)"
    by (simp add: raising_operator_def)
  have dR: "select_primitives ?R 2 3 = Inl (ExternalError ''matvec'')"
    by (simp add: raising_operator_def probe_dtype_def operator_dot_def np_zeros_def getattr_dtype_def)
  have vM: "(''SM'' = ''LM'' \<or> ''SM'' = ''SM'') \<and> shape_of ?M = (3, 2)
           \<and> (0::int) < 1 \<and> 1 < int (min 3 2)"
    by (simp add: as_operator_def tall_matrix_def)
  obtain q where dM: "select_primitives ?M 3 2 = Inr (q, None)
           \<and> dtype_of ?M = Inl (AttributeError ''dtype'')"
    by (simp add: as_operator_def)
  note t1 = validation_errors[where which = "''XX''", THEN conjunct1, rule_format, OF a]
  note t2 = validation_errors[where which = "''LM''" and k = 2 and n = 3 and m = 2
      and A = "Array tall_matrix", THEN conjunct2, THEN conjunct1, rule_format, OF b]
  note t3 = validation_errors[where solver = "Some ''bogus''" and which = "''SM''" and k = 1
      and n = 3 and m = 2 and A = "Array tall_matrix" and p = p and dl = None
      and d = "Some Float64" and ext = ?ext and ext' = "fixed_solvers (Inl NotImplementedError)"
      and g = "[]" and ncv = None and tol = 0 and ?v0.0 = None and maxiter = None
      and rsv = "PyBool True", THEN conjunct2, THEN conjunct2, rule_format, OF c]
  note t6 = validation_errors[where solver = "Some ''bogus''" and which = "''SM''" and k = 1
      and n = 2 and m = 3 and A = ?R and ?e1.0 = "ExternalError ''matvec''" and ext = ?ext
      and g = "[]" and ncv = None and tol = 0 and ?v0.0 = None and maxiter = None
      and rsv = "PyBool True", THEN conjunct2, THEN conjunct2, rule_format, OF c,
      THEN conjunct2, THEN conjunct2, rule_format, OF vR, THEN conjunct1, rule_format, OF dR]
  note t7 = validation_errors[where solver = "Some ''bogus''" and which = "''SM''" and k = 1
      and n = 3 and m = 2 and A = ?M and ?e2.0 = "AttributeError ''dtype''" and ext = ?ext
      and p = q and dl = None
      and g = "[]" and ncv = None and tol = 0 and ?v0.0 = None and maxiter = None
      and rsv = "PyBool True", THEN conjunct2, THEN conjunct2, rule_format, OF c,
      THEN conjunct2, THEN conjunct2, rule_format, OF vM, THEN conjunct2, THEN conjunct1,
      rule_format, OF dM]
  from t3 have t4: "svds (fixed_solvers (Inl NotImplementedError)) (Array tall_matrix) 1 None 0
      ''SM'' None None (PyBool True) (Some ''bogus'') []
       = svds ?ext (Array tall_matrix) 1 None 0 ''SM'' None None (PyBool True) (Some ''bogus'') []"
    by blast
  from t3 v d have t5: "svds ?ext (Array tall_matrix) 1 None 0 ''SM'' None None (PyBool True)
      (Some ''bogus'') [] = (Inl (ValueError ''solver must be either arpack, or lobpcg.''), [])"
    by blast
  show ?thesis
    by (intro conjI) (rule t1, rule t2, rule t5, rule t4, rule t6, rule t7)
qed

section \<open>The basis augmentation\<close>





section \<open>The initial block and repeated calls\<close>

text \<open>
  Claim C7, as stated, fails in its second half. The padding vectors are drawn from the
  global generator of \<open>np.random\<close> (lines 24 and 26), which no line seeds and whose state
  moves on with every draw. The call below and the same call again, on the state the
  first one leaves, return different left and right singular vectors.
\<close>

theorem repeated_call_counterexample:
  "svds (fixed_solvers (Inr rank_one_pairs)) (Array rank_one_matrix) 2 None 0 ''LM'' None None
        (PyBool True) (Some ''lobpcg'') [3, 2, 0, 0, 5, 0, 2, 3, 0, 2, 0, 5, 2, 0]
     = (Inr (Triplet
          (Some \<lparr>nrows = 4, ncols = 2, dtype = Float64, cols = [[0, 1, 0, 0], [1, 0, 0, 0]]\<rparr>)
          [0, 2]
          (Some \<lparr>nrows = 2, ncols = 3, dtype = Float64, cols = [[0, 1], [0, 0], [1, 0]]\<rparr>)),
        [3, 0, 2, 0, 5, 2, 0])
   \<and> svds (fixed_solvers (Inr rank_one_pairs)) (Array rank_one_matrix) 2 None 0 ''LM'' None None
        (PyBool True) (Some ''lobpcg'') [3, 0, 2, 0, 5, 2, 0]
     = (Inr (Triplet
          (Some \<lparr>nrows = 4, ncols = 2, dtype = Float64, cols = [[0, 0, 1, 0], [1, 0, 0, 0]]\<rparr>)
          [0, 2]
          (Some \<lparr>nrows = 2, ncols = 3, dtype = Float64, cols = [[0, 1], [1, 0], [0, 0]]\<rparr>)),
        [])"
  by (simp add: eval_defs vec_defs upt_rec numeral_eq_Suc)


text \<open>
  Claim C7, amended. For the \<open>lobpcg\<close> backend the initial block is \<open>v0\<close> as one column
  when \<open>k = 1\<close> and \<open>v0\<close> is given, and \<open>RandomState(52).randn(min(n, m), k)\<close> otherwise,
  and the backend does not touch the random sources. With the \<open>lobpcg\<close> backend, whatever
  the state of the random sources, a call that returns in one state returns in every other
  state with the same singular values; when no eigenvalue is at or below the cutoff, so
  that nothing is padded, it returns the same output and leaves the state as it was. The
  padding vectors depend on the state of the global generator. With any backend, two
  calls in which the eigensolver returns the same eigenpairs return the same singular
  values; the \<open>arpack\<close> backend with \<open>v0 = None\<close> starts from a random vector and need not
  do so.
\<close>

theorem lobpcg_block_and_repeatability:
  "solve ext XH_X mn k ncv tol which largest v0 maxiter (Some ''lobpcg'') g
     = (lobpcg ext XH_X (initial_block ext mn k v0) (tol ^ 2) maxiter largest, g)
   \<and> initial_block ext mn 1 (Some v) = np_reshape_col v
   \<and> (k \<noteq> 1 \<longrightarrow> initial_block ext mn k (Some v) = RandomState_randn ext 52 mn (nat k))
   \<and> initial_block ext mn k None = RandomState_randn ext 52 mn (nat k)
   \<and> (svds ext A k ncv tol which v0 maxiter rsv (Some ''lobpcg'') g = (Inr res, g1) \<longrightarrow>
        (\<exists>res' g1'. svds ext A k ncv tol which v0 maxiter rsv (Some ''lobpcg'') g' = (Inr res', g1')
                     \<and> values_of res' = values_of res)
      \<and> (\<forall>p n m r ge th. gramian_eigenpairs ext A k ncv tol which v0 maxiter (Some ''lobpcg'') g
                             = (Inr (p, n, m, r), ge)
             \<and> threshold ext r = Inr th \<and> k \<le> int (nlarge th)
           \<longrightarrow> g1 = g
              \<and> svds ext A k ncv tol which v0 maxiter rsv (Some ''lobpcg'') g' = (Inr res, g')))
   \<and> (svds ext A k ncv tol which v0 maxiter rsv solver g = (Inr res, g1)
        \<and> fst (gramian_eigenpairs ext A k ncv tol which v0 maxiter solver g')
            = fst (gramian_eigenpairs ext A k ncv tol which v0 maxiter solver g) \<longrightarrow>
        (\<exists>res' g1'. svds ext A k ncv tol which v0 maxiter rsv solver g' = (Inr res', g1')
                     \<and> values_of res' = values_of res))"
proof -
  have general: "\<exists>res' g1'. svds ext A k ncv tol which v0 maxiter rsv solver g' = (Inr res', g1')
                     \<and> values_of res' = values_of res"
    if h: "svds ext A k ncv tol which v0 maxiter rsv solver g = (Inr res, g1)"
      and e: "fst (gramian_eigenpairs ext A k ncv tol which v0 maxiter solver g')
            = fst (gramian_eigenpairs ext A k ncv tol which v0 maxiter solver g)"
    for solver g g' res g1
  proof -
    from svds_InrD[OF h] obtain p n m r ge where
      ge: "gramian_eigenpairs ext A k ncv tol which v0 maxiter solver g = (Inr (p, n, m, r), ge)"
      and fin: "finish ext p n m k rsv r ge = (Inr res, g1)" by blast
    from finish_InrD[OF fin] obtain th where th: "threshold ext r = Inr th"
      and alt: "if \<not> truthy rsv then res = Values (np_sort (svals th)) \<and> g1 = ge
        else \<exists>ularge vhlarge u0 vh0.
               large_vectors p n m rsv (eigvec r) (above_cutoff th) (slarge th) = Inr (ularge, vhlarge)
             \<and> augment_sides (randn ext) ularge vhlarge (nat (k - int (nlarge th))) ge = (u0, vh0, g1)
             \<and> sort_triplets (tie_rank ext) u0 (svals th) vh0 = Inr res"
      by blast
    define ge' where "ge' = snd (gramian_eigenpairs ext A k ncv tol which v0 maxiter solver g')"
    from e ge have ge2: "gramian_eigenpairs ext A k ncv tol which v0 maxiter solver g'
                          = (Inr (p, n, m, r), ge')"
      unfolding ge'_def by (cases "gramian_eigenpairs ext A k ncv tol which v0 maxiter solver g'") simp
    have sv: "svds ext A k ncv tol which v0 maxiter rsv solver g' = finish ext p n m k rsv r ge'"
      using ge2 by (rule svds_Inr)
    show ?thesis
    proof (cases "truthy rsv")
      case False
      with alt th show ?thesis by (simp add: sv finish_values)
    next
      case True
      with alt obtain ularge vhlarge u0 vh0 where
        lv: "large_vectors p n m rsv (eigvec r) (above_cutoff th) (slarge th) = Inr (ularge, vhlarge)"
        and au: "augment_sides (randn ext) ularge vhlarge (nat (k - int (nlarge th))) ge = (u0, vh0, g1)"
        and st: "sort_triplets (tie_rank ext) u0 (svals th) vh0 = Inr res" by auto
      obtain u1 vh1 g2 where au':
        "augment_sides (randn ext) ularge vhlarge (nat (k - int (nlarge th))) ge' = (u1, vh1, g2)"
        by (cases "augment_sides (randn ext) ularge vhlarge (nat (k - int (nlarge th))) ge'") auto
      from augment_sides_shapes[OF au au'] sort_triplets_success[OF st]
      obtain res' where "sort_triplets (tie_rank ext) u1 (svals th) vh1 = Inr res'"
        "values_of res' = values_of res"
        by blast
      with th True lv au' show ?thesis by (simp add: sv finish_def)
    qed
  qed
  have lob: "fst (gramian_eigenpairs ext A k ncv tol which v0 maxiter (Some ''lobpcg'') g')
            = fst (gramian_eigenpairs ext A k ncv tol which v0 maxiter (Some ''lobpcg'') g)"
    for g g'
    by (subst gramian_eigenpairs_lobpcg[of _ _ _ _ _ _ _ _ g' g]) simp
  have same: "g1 = g \<and> svds ext A k ncv tol which v0 maxiter rsv (Some ''lobpcg'') g' = (Inr res, g')"
    if h: "svds ext A k ncv tol which v0 maxiter rsv (Some ''lobpcg'') g = (Inr res, g1)"
      and a: "gramian_eigenpairs ext A k ncv tol which v0 maxiter (Some ''lobpcg'') g
                = (Inr (p, n, m, r), ge) \<and> threshold ext r = Inr th \<and> k \<le> int (nlarge th)"
    for p n m r ge th
  proof -
    from a have z: "nat (k - int (nlarge th)) = 0" by simp
    from a gramian_eigenpairs_lobpcg[of ext A k ncv tol which v0 maxiter g g] have gg: "ge = g"
      by simp
    have ge0: "gramian_eigenpairs ext A k ncv tol which v0 maxiter (Some ''lobpcg'') g0
                 = (Inr (p, n, m, r), g0)" for g0
      using a gramian_eigenpairs_lobpcg[of ext A k ncv tol which v0 maxiter g0 g] by simp
    have sv: "svds ext A k ncv tol which v0 maxiter rsv (Some ''lobpcg'') g0
                = finish ext p n m k rsv r g0" for g0
      using ge0[of g0] by (rule svds_Inr)
    have "g1 = g \<and> finish ext p n m k rsv r g' = (Inr res, g')"
    proof (cases "truthy rsv")
      case False
      with h a show ?thesis by (simp add: sv finish_values)
    next
      case True
      show ?thesis
      proof (cases "large_vectors p n m rsv (eigvec r) (above_cutoff th) (slarge th)")
        case (Inl e)
        with h a True show ?thesis by (simp add: sv finish_def)
      next
        case (Inr pr)
        obtain ul vl where pr: "pr = (ul, vl)" by (cases pr)
        from augment_sides_no_padding[of "randn ext" ul vl g g'] obtain u0 vh0 where
          "augment_sides (randn ext) ul vl 0 g = (u0, vh0, g)"
          "augment_sides (randn ext) ul vl 0 g' = (u0, vh0, g')" by blast
        with h a True Inr pr z show ?thesis by (simp add: sv finish_def)
      qed
    qed
    then show ?thesis by (simp add: sv)
  qed
  show ?thesis
  proof (intro conjI impI allI)
    show "solve ext XH_X mn k ncv tol which largest v0 maxiter (Some ''lobpcg'') g
       = (lobpcg ext XH_X (initial_block ext mn k v0) (tol ^ 2) maxiter largest, g)"
      by (simp add: solve_def)
    show "initial_block ext mn 1 (Some v) = np_reshape_col v"
      by (simp add: initial_block_def)
    show "initial_block ext mn k None = RandomState_randn ext 52 mn (nat k)"
      by (simp add: initial_block_def)
  next
    assume "k \<noteq> 1"
    then show "initial_block ext mn k (Some v) = RandomState_randn ext 52 mn (nat k)"
      by (simp add: initial_block_def)
  next
    assume h: "svds ext A k ncv tol which v0 maxiter rsv (Some ''lobpcg'') g = (Inr res, g1)"
    from general[OF h lob]
    show "\<exists>res' g1'. svds ext A k ncv tol which v0 maxiter rsv (Some ''lobpcg'') g' = (Inr res', g1')
                     \<and> values_of res' = values_of res" .
  next
    fix p n m r ge th
    assume h: "svds ext A k ncv tol which v0 maxiter rsv (Some ''lobpcg'') g = (Inr res, g1)"
    assume a: "gramian_eigenpairs ext A k ncv tol which v0 maxiter (Some ''lobpcg'') g
                = (Inr (p, n, m, r), ge) \<and> threshold ext r = Inr th \<and> k \<le> int (nlarge th)"
    from same[OF h a]
    show "g1 = g" and "svds ext A k ncv tol which v0 maxiter rsv (Some ''lobpcg'') g' = (Inr res, g')"
      by simp_all
  next
    assume "svds ext A k ncv tol which v0 maxiter rsv solver g = (Inr res, g1)
        \<and> fst (gramian_eigenpairs ext A k ncv tol which v0 maxiter solver g')
            = fst (gramian_eigenpairs ext A k ncv tol which v0 maxiter solver g)"
    then show "\<exists>res' g1'. svds ext A k ncv tol which v0 maxiter rsv solver g' = (Inr res', g1')
                     \<and> values_of res' = values_of res"
      using general by blast
  qed
qed


theorem lobpcg_block_and_repeatability_witness:
  "(\<exists>res' g1'. svds (fixed_solvers (Inr rank_one_pairs)) (Array rank_one_matrix) 2 None 0 ''LM''
        None None (PyBool True) (Some ''lobpcg'') [9, 9] = (Inr res', g1')
      \<and> values_of res' = [0, 2])
   \<and> svds (fixed_solvers (Inr (tall_top Float64))) (Array tall_matrix) 1 None 0 ''LM'' None None
          (PyBool True) (Some ''lobpcg'') [7] =
      (Inr (Triplet
        (Some \<lparr>nrows = 3, ncols = 1, dtype = Float64, cols = [[1, 0, 0]]\<rparr>)
        [2]
        (Some \<lparr>nrows = 1, ncols = 2, dtype = Float64, cols = [[1], [0]]\<rparr>)), [7])
   \<and> (\<exists>res' g1'. svds (fixed_solvers (Inr rank_one_pairs)) (Array rank_one_matrix) 2 None 0 ''LM''
        None None (PyBool True) None [9, 9] = (Inr res', g1')
      \<and> values_of res' = [0, 2])"
proof -
  let ?ext = "fixed_solvers (Inr (tall_top Float64))"
  let ?ex2 = "fixed_solvers (Inr rank_one_pairs)"
  note t1 = lobpcg_block_and_repeatability[where g' = "[9, 9]", THEN conjunct2, THEN conjunct2,
      THEN conjunct2, THEN conjunct2, THEN conjunct1, rule_format, OF rank_one_lobpcg_call,
      THEN conjunct1]
  note t2 = lobpcg_block_and_repeatability[where g' = "[7]", THEN conjunct2, THEN conjunct2,
      THEN conjunct2, THEN conjunct2, THEN conjunct1, rule_format, OF tall_lobpcg_call,
      THEN conjunct2, rule_format]
  have e3: "fst (gramian_eigenpairs ?ex2 (Array rank_one_matrix) 2 None 0 ''LM'' None None None [9, 9])
          = fst (gramian_eigenpairs ?ex2 (Array rank_one_matrix) 2 None 0 ''LM'' None None None
                   [3, 2, 0, 0, 5, 0, 2])"
    by (simp add: eval_defs)
  note t3 = lobpcg_block_and_repeatability[where g' = "[9, 9]", THEN conjunct2, THEN conjunct2,
      THEN conjunct2, THEN conjunct2, THEN conjunct2, rule_format,
      OF conjI[OF rank_one_full_call e3]]
  obtain p where ge: "gramian_eigenpairs ?ext (Array tall_matrix)
       1 None 0 ''LM'' None None (Some ''lobpcg'') [] = (Inr (p, 3, 2, tall_top Float64), [])"
    by (simp add: eval_defs)
  obtain th where th: "threshold ?ext (tall_top Float64) = Inr th" "nlarge th = 1"
    by (simp add: eval_defs)
  from t1 have a: "\<exists>res' g1'. svds ?ex2 (Array rank_one_matrix) 2
        None 0 ''LM'' None None (PyBool True) (Some ''lobpcg'') [9, 9] = (Inr res', g1')
      \<and> values_of res' = [0, 2]"
    by simp
  from t2[of p 3 2 "tall_top Float64" "[]" th] ge th
  have b: "svds ?ext (Array tall_matrix) 1 None 0 ''LM'' None
        None (PyBool True) (Some ''lobpcg'') [7] =
      (Inr (Triplet
        (Some \<lparr>nrows = 3, ncols = 1, dtype = Float64, cols = [[1, 0, 0]]\<rparr>)
        [2]
        (Some \<lparr>nrows = 1, ncols = 2, dtype = Float64, cols = [[1], [0]]\<rparr>)), [7])"
    by simp
  from t3 have c: "\<exists>res' g1'. svds ?ex2 (Array rank_one_matrix) 2
        None 0 ''LM'' None None (PyBool True) None [9, 9] = (Inr res', g1')
      \<and> values_of res' = [0, 2]"
    by simp
  from a b c show ?thesis by blast
qed

end
